theory Spec2Isabelle
  imports Complex_Main "HOL-Library.Log_Nat"
begin

section \<open>Talking Jerry: the voice session orchestrator of the App component\<close>

text \<open>
  The App component keeps its state in React state cells and refs and mutates them from
  event handlers. The embedding keeps one record with a field per cell or ref, named as in
  the source, and turns every handler into a function from the record to the updated
  record. Calls that leave the component (the remote service, the audio devices, the
  console) are appended, in program order, to the field \<open>effects\<close>.

  Conventions:
  \<^item> a JavaScript string is a \<open>string\<close>; a \<open>char\<close> stands for a code unit below 256;
  \<^item> a JavaScript number is the \<open>real\<close> that the double denotes; the one arithmetic
    operation of the code, the sum of line 316, is rounded as the addition of doubles
    rounds (\<open>addDouble\<close>), while \<open>Math.max\<close> and comparisons are exact;
  \<^item> a ref that is \<open>null\<close> or an object is a \<open>bool\<close> (object present) or an \<open>option\<close>;
  \<^item> an \<open>AudioBufferSourceNode\<close> is known by a number; \<open>nextSourceId\<close> hands out
    the identity of the next node created and has no counterpart in the source;
  \<^item> a state setter takes effect where it is called; functional updates such as
    \<open>setUserTranscript(prev => prev + ' ')\<close> read the value written before them in the
    same handler, as React's update queue does;
  \<^item> a handler runs to its end before the next event is handled. The \<open>await\<close> on
    \<open>decodeAudioData\<close> inside \<open>onmessage\<close> is taken to resume before any other
    handler runs; the awaits on the greeting request and on \<open>getUserMedia\<close> are
    split into separate events.
\<close>

subsection \<open>types.ts\<close>

datatype GameState = PRE_GAME | GREETING | CONNECTING | LISTENING | THINKING | TALKING | IDLE

datatype GameMode = AI | MIMIC

text \<open>
  \<open>JerryReaction\<close> is a string enum. The cast \<open>fc.args.reaction as JerryReaction\<close> checks
  nothing at run time, so the cell \<open>jerryReaction\<close> holds an arbitrary string.
\<close>

type_synonym JerryReaction = string

abbreviation JerryReaction_IDLE :: JerryReaction where "JerryReaction_IDLE \<equiv> ''idle''"
abbreviation JerryReaction_MIMICKING :: JerryReaction where "JerryReaction_MIMICKING \<equiv> ''mimicking''"
abbreviation JerryReaction_SMART :: JerryReaction where "JerryReaction_SMART \<equiv> ''smart''"
abbreviation JerryReaction_LAUGHING :: JerryReaction where "JerryReaction_LAUGHING \<equiv> ''laughing''"
abbreviation JerryReaction_THINKING :: JerryReaction where "JerryReaction_THINKING \<equiv> ''thinking''"
abbreviation JerryReaction_SURPRISED :: JerryReaction where "JerryReaction_SURPRISED \<equiv> ''surprised''"
abbreviation JerryReaction_SAD :: JerryReaction where "JerryReaction_SAD \<equiv> ''sad''"

definition reactionEnum :: "JerryReaction list" where
  "reactionEnum = [JerryReaction_IDLE, JerryReaction_MIMICKING, JerryReaction_SMART,
     JerryReaction_LAUGHING, JerryReaction_THINKING, JerryReaction_SURPRISED, JerryReaction_SAD]"

subsection \<open>Strings\<close>

text \<open>
  \<open>String.prototype.trim\<close> removes white space and line terminators from both ends. Of
  the code points ECMAScript lists, those below 256 are TAB, LF, VT, FF, CR, SP and NBSP.
\<close>

definition isWhiteSpace :: "char \<Rightarrow> bool" where
  "isWhiteSpace c = (of_char c \<in> {9, 10, 11, 12, 13, 32, 160 :: nat})"

definition trim :: "string \<Rightarrow> string" where
  "trim s = rev (dropWhile isWhiteSpace (rev (dropWhile isWhiteSpace s)))"

subsection \<open>Numbers\<close>

text \<open>
  The sum of two doubles is their exact sum rounded to the nearest double, ties to the
  even significand (IEEE 754 binary64, the default rounding). Every finite double is a
  whole multiple of the smallest positive double, 2 to the power -1074, with a significand
  of at most 53 bits: \<open>roundDouble\<close> scales the magnitude by 2 to the power 1074,
  drops the bits beyond the 53rd with \<open>roundHalfEven\<close> and scales back. Sums of
  magnitude 2 to the power 1024 or more, which give \<open>Infinity\<close>, are not covered.
\<close>

definition roundHalfEven :: "real \<Rightarrow> int" where
  "roundHalfEven y =
     (let r = \<lfloor>y\<rfloor>; f = y - of_int r
      in if f < 1 / 2 then r else if 1 / 2 < f then r + 1 else if even r then r else r + 1)"

definition minExponent :: nat where
  "minExponent = 1074"

text \<open>The number of low bits to drop from a scaled magnitude.\<close>

definition shiftOf :: "real \<Rightarrow> nat" where
  "shiftOf u = nat (bitlen \<lfloor>u\<rfloor> - 53)"

definition roundDouble :: "real \<Rightarrow> real" where
  "roundDouble x =
     (let u = \<bar>x\<bar> * 2 ^ minExponent;
          k = shiftOf u
      in sgn x * (of_int (roundHalfEven (u / 2 ^ k)) * 2 ^ k / 2 ^ minExponent))"

definition addDouble :: "real \<Rightarrow> real \<Rightarrow> real" where
  "addDouble a b = roundDouble (a + b)"

text \<open>The reals that are doubles.\<close>

definition isDouble :: "real \<Rightarrow> bool" where
  "isDouble x = (roundDouble x = x)"

subsection \<open>The world outside the component\<close>

datatype AudioContextState = Suspended | Running | Closed

datatype ContextKind = InputContext | OutputContext | SfxContext

datatype effect =
    ConsoleError
  | NewAudioContext ContextKind
  | CloseAudioContext ContextKind
  | GenerateContent string
  | GreetingSourceStart
  | GetUserMedia
  | StopTracks
  | LiveConnect
  | SessionClose
  | SendRealtimeInput
  | SendToolResponse string string
  | CreateCaptureNodes
  | DisconnectCaptureNodes
  | SourceStart nat real real
  | SourceStop nat
  | PlaySound JerryReaction

text \<open>
  \<open>SendToolResponse id name\<close> is the acknowledgment \<open>{id, name, response: {result: "ok"}}\<close>;
  \<open>SourceStart n t d\<close> is \<open>source.start(t)\<close> on node \<open>n\<close>, whose buffer lasts \<open>d\<close>.
\<close>

text \<open>
  \<open>API_KEY\<close> is \<open>process.env.API_KEY\<close>. \<open>decodeAudioData\<close> stands for
  \<open>decodeAudioData(decode(base64), ctx, 24000, 1)\<close> of utils/audioUtils, which is not part
  of the sources at hand: it is a parameter giving the duration of the decoded buffer, or
  \<open>None\<close> when decoding throws.
\<close>

record env =
  API_KEY :: "string option"
  decodeAudioData :: "string \<Rightarrow> real option"

definition apiKeyMissing :: "env \<Rightarrow> bool" where
  "apiKeyMissing e = (case API_KEY e of None \<Rightarrow> True | Some k \<Rightarrow> k = [])"

record FunctionCall =
  fc_id :: string
  fc_name :: string
  fc_reaction :: string

text \<open>
  The fields of a \<open>LiveServerMessage\<close> that \<open>onmessage\<close> reads. \<open>modelTurnAudio\<close> is
  \<open>serverContent?.modelTurn?.parts[0]?.inlineData?.data\<close>.
\<close>

record LiveServerMessage =
  toolCall :: "FunctionCall list option"
  outputTranscription :: "string option"
  inputTranscription :: "string option"
  turnComplete :: bool
  modelTurnAudio :: "string option"
  interrupted :: bool

subsection \<open>The component's state\<close>

record app =
  gameState :: GameState
  gameMode :: GameMode
  jerryReaction :: JerryReaction
  userTranscript :: string
  jerryTranscript :: string
  error :: "string option"
  userName :: string
  userAge :: string
  sessionPromiseRef :: bool
  inputAudioContextRef :: "AudioContextState option"
  outputAudioContextRef :: "AudioContextState option"
  sfxAudioContextRef :: "AudioContextState option"
  mediaStreamRef :: bool
  scriptProcessorRef :: bool
  mediaStreamSourceRef :: bool
  nextStartTimeRef :: real
  audioSourcesRef :: "nat list"
  currentInputTranscriptionRef :: string
  currentOutputTranscriptionRef :: string
  nextSourceId :: nat
  effects :: "effect list"

definition initApp :: app where
  "initApp = \<lparr> gameState = PRE_GAME, gameMode = AI, jerryReaction = JerryReaction_IDLE,
     userTranscript = [], jerryTranscript = [], error = None, userName = [], userAge = [],
     sessionPromiseRef = False, inputAudioContextRef = None, outputAudioContextRef = None,
     sfxAudioContextRef = None, mediaStreamRef = False, scriptProcessorRef = False,
     mediaStreamSourceRef = False, nextStartTimeRef = 0, audioSourcesRef = [],
     currentInputTranscriptionRef = [], currentOutputTranscriptionRef = [],
     nextSourceId = 0, effects = [] \<rparr>"

definition emit :: "effect \<Rightarrow> app \<Rightarrow> app" where
  "emit x s = s\<lparr>effects := effects s @ [x]\<rparr>"

text \<open>A context ref is usable when it is neither \<open>null\<close> nor in state \<open>closed\<close>.\<close>

definition liveContext :: "AudioContextState option \<Rightarrow> bool" where
  "liveContext c = (case c of None \<Rightarrow> False | Some st \<Rightarrow> st \<noteq> Closed)"

subsection \<open>The sound effect hook\<close>

definition reactionEffect :: "app \<Rightarrow> app" where
  "reactionEffect s =
     (if gameState s = IDLE then s
      else
        let s1 = (if \<not> liveContext (sfxAudioContextRef s)
                  then (emit (NewAudioContext SfxContext) s)\<lparr>sfxAudioContextRef := Some Running\<rparr>
                  else s)
        in if jerryReaction s1 \<in> {JerryReaction_SURPRISED, JerryReaction_SAD,
                                    JerryReaction_LAUGHING, JerryReaction_SMART}
           then emit (PlaySound (jerryReaction s1)) s1
           else s1)"

subsection \<open>stopAudioProcessing\<close>

fun stopSources :: "nat list \<Rightarrow> app \<Rightarrow> app" where
  "stopSources [] s = s"
| "stopSources (n # ns) s = stopSources ns (emit (SourceStop n) s)"

definition closeSession :: "app \<Rightarrow> app" where
  "closeSession s =
     (if sessionPromiseRef s then (emit SessionClose s)\<lparr>sessionPromiseRef := False\<rparr> else s)"

definition disconnectCapture :: "app \<Rightarrow> app" where
  "disconnectCapture s =
     (if scriptProcessorRef s \<and> mediaStreamSourceRef s then emit DisconnectCaptureNodes s else s)"

definition stopMediaStream :: "app \<Rightarrow> app" where
  "stopMediaStream s =
     (if mediaStreamRef s then (emit StopTracks s)\<lparr>mediaStreamRef := False\<rparr> else s)"

definition closeInputContext :: "app \<Rightarrow> app" where
  "closeInputContext s =
     (if liveContext (inputAudioContextRef s)
      then (emit (CloseAudioContext InputContext) s)\<lparr>inputAudioContextRef := None\<rparr>
      else s)"

definition closeOutputContext :: "app \<Rightarrow> app" where
  "closeOutputContext s =
     (if liveContext (outputAudioContextRef s)
      then (emit (CloseAudioContext OutputContext)
              ((stopSources (audioSourcesRef s) s)\<lparr>audioSourcesRef := []\<rparr>))
           \<lparr>outputAudioContextRef := None\<rparr>
      else s)"

definition closeSfxContext :: "app \<Rightarrow> app" where
  "closeSfxContext s =
     (if liveContext (sfxAudioContextRef s)
      then (emit (CloseAudioContext SfxContext) s)\<lparr>sfxAudioContextRef := None\<rparr>
      else s)"

definition resetOnExit :: "app \<Rightarrow> app" where
  "resetOnExit s = s\<lparr>jerryReaction := JerryReaction_IDLE, userTranscript := [],
     jerryTranscript := [], currentInputTranscriptionRef := [],
     currentOutputTranscriptionRef := [], error := None\<rparr>"

definition stopAudioProcessing :: "bool \<Rightarrow> app \<Rightarrow> app" where
  "stopAudioProcessing isExiting s =
     (let s1 = closeSession s;
          s2 = disconnectCapture s1;
          s3 = stopMediaStream s2;
          s4 = closeInputContext s3;
          s5 = closeOutputContext s4;
          s6 = closeSfxContext s5
      in if isExiting then resetOnExit s6 else s6)"

subsection \<open>handleToggleConversation\<close>

text \<open>The \<open>catch\<close> block of \<open>handleToggleConversation\<close>, with the message it shows.\<close>

definition toggleCatch :: "string \<Rightarrow> app \<Rightarrow> app" where
  "toggleCatch msg s =
     stopAudioProcessing False ((emit ConsoleError s)\<lparr>error := Some msg, gameState := IDLE\<rparr>)"

text \<open>
  The handler up to its first \<open>await\<close> (on \<open>getUserMedia\<close>). The branch taken by a user
  click while a conversation is on returns before the \<open>try\<close>.
\<close>

definition handleToggleConversation :: "env \<Rightarrow> bool \<Rightarrow> app \<Rightarrow> app" where
  "handleToggleConversation e isAutoStart s =
     (if \<not> isAutoStart \<and> gameState s \<noteq> IDLE then
        (stopAudioProcessing False (s\<lparr>gameState := IDLE, jerryReaction := JerryReaction_IDLE\<rparr>))
          \<lparr>userTranscript := [], jerryTranscript := [],
           currentInputTranscriptionRef := [], currentOutputTranscriptionRef := []\<rparr>
      else
        let s1 = s\<lparr>error := None, gameState := CONNECTING\<rparr>
        in if apiKeyMissing e then toggleCatch ''API_KEY environment variable not set.'' s1
           else
             let s2 = (emit (NewAudioContext InputContext) s1)\<lparr>inputAudioContextRef := Some Running\<rparr>;
                 s3 = (if \<not> liveContext (outputAudioContextRef s2)
                       then (emit (NewAudioContext OutputContext) s2)
                              \<lparr>outputAudioContextRef := Some Running\<rparr>
                       else s2)
             in emit GetUserMedia s3)"

text \<open>The handler after \<open>getUserMedia\<close> resolved: the stream is kept and the session is requested.\<close>

definition mediaGranted :: "app \<Rightarrow> app" where
  "mediaGranted s = (emit LiveConnect (s\<lparr>mediaStreamRef := True\<rparr>))\<lparr>sessionPromiseRef := True\<rparr>"

text \<open>
  The handler after \<open>getUserMedia\<close> rejected with \<open>err\<close>: \<open>Some m\<close> is an \<open>Error\<close> with
  message \<open>m\<close>, \<open>None\<close> any other value.
\<close>

definition mediaDenied :: "string option \<Rightarrow> app \<Rightarrow> app" where
  "mediaDenied err s =
     toggleCatch (case err of Some m \<Rightarrow> m | None \<Rightarrow> ''An unknown error occurred.'') s"

subsection \<open>The session callbacks\<close>

text \<open>
  \<open>onopen\<close> calls \<open>inputAudioContextRef.current!.createMediaStreamSource(mediaStreamRef.current!)\<close>;
  with either ref \<open>null\<close> that throws after the state was set.
\<close>

definition onopen :: "app \<Rightarrow> app" where
  "onopen s =
     (let s1 = s\<lparr>gameState := LISTENING\<rparr>
      in if inputAudioContextRef s1 = None \<or> \<not> mediaStreamRef s1 then s1
         else (emit CreateCaptureNodes s1)\<lparr>mediaStreamSourceRef := True, scriptProcessorRef := True\<rparr>)"

definition onaudioprocess :: "app \<Rightarrow> app" where
  "onaudioprocess s = (if sessionPromiseRef s then emit SendRealtimeInput s else s)"

definition handleFunctionCall :: "FunctionCall \<Rightarrow> app \<Rightarrow> app" where
  "handleFunctionCall fc s =
     (if fc_name fc = ''setJerrysReaction'' then
        let s1 = s\<lparr>jerryReaction := fc_reaction fc\<rparr>
        in if sessionPromiseRef s1 then emit (SendToolResponse (fc_id fc) (fc_name fc)) s1 else s1
      else s)"

definition handleToolCall :: "LiveServerMessage \<Rightarrow> app \<Rightarrow> app" where
  "handleToolCall m s = (case toolCall m of None \<Rightarrow> s | Some fcs \<Rightarrow> fold handleFunctionCall fcs s)"

definition handleTranscription :: "LiveServerMessage \<Rightarrow> app \<Rightarrow> app" where
  "handleTranscription m s =
     (case outputTranscription m of
        Some text \<Rightarrow>
          let cur = currentOutputTranscriptionRef s @ text
          in s\<lparr>currentOutputTranscriptionRef := cur, jerryTranscript := cur\<rparr>
      | None \<Rightarrow>
          (case inputTranscription m of
             Some text \<Rightarrow>
               let cur = currentInputTranscriptionRef s @ text
               in s\<lparr>currentInputTranscriptionRef := cur, userTranscript := cur\<rparr>
           | None \<Rightarrow> s))"

definition handleTurnComplete :: "LiveServerMessage \<Rightarrow> app \<Rightarrow> app" where
  "handleTurnComplete m s =
     (if turnComplete m then
        let s1 = (if trim (currentInputTranscriptionRef s) \<noteq> []
                  then s\<lparr>gameState := THINKING, jerryReaction := JerryReaction_THINKING\<rparr>
                  else s)
        in s1\<lparr>userTranscript := userTranscript s1 @ '' '',
               jerryTranscript := jerryTranscript s1 @ '' '',
               currentInputTranscriptionRef := [],
               currentOutputTranscriptionRef := []\<rparr>
      else s)"

text \<open>
  The audio block can leave the handler: by \<open>return\<close> when there is no output context, by
  an exception when decoding throws. \<open>now\<close> is \<open>outputAudioContext.currentTime\<close>.
\<close>

datatype completion = Normal | Returned | Thrown

definition handleAudio :: "env \<Rightarrow> real \<Rightarrow> LiveServerMessage \<Rightarrow> app \<Rightarrow> completion \<times> app" where
  "handleAudio e now m s =
     (case modelTurnAudio m of
        None \<Rightarrow> (Normal, s)
      | Some base64Audio \<Rightarrow>
          if base64Audio = [] then (Normal, s)
          else
            let s1 = s\<lparr>gameState := TALKING\<rparr>
            in if outputAudioContextRef s1 = None then (Returned, s1)
               else
                 let s2 = s1\<lparr>nextStartTimeRef := max (nextStartTimeRef s1) now\<rparr>
                 in (case decodeAudioData e base64Audio of
                       None \<Rightarrow> (Thrown, s2)
                     | Some duration \<Rightarrow>
                         let source = nextSourceId s2;
                             s3 = emit (SourceStart source (nextStartTimeRef s2) duration) s2
                         in (Normal,
                             s3\<lparr>nextStartTimeRef := addDouble (nextStartTimeRef s3) duration,
                                audioSourcesRef := audioSourcesRef s3 @ [source],
                                nextSourceId := Suc source\<rparr>)))"

definition handleInterrupted :: "LiveServerMessage \<Rightarrow> app \<Rightarrow> app" where
  "handleInterrupted m s =
     (if interrupted m
      then (stopSources (audioSourcesRef s) s)\<lparr>audioSourcesRef := [], nextStartTimeRef := 0\<rparr>
      else s)"

definition onmessage :: "env \<Rightarrow> real \<Rightarrow> LiveServerMessage \<Rightarrow> app \<Rightarrow> app" where
  "onmessage e now m s =
     (let s1 = handleToolCall m s;
          s2 = handleTranscription m s1;
          s3 = handleTurnComplete m s2
      in case handleAudio e now m s3 of
           (Normal, s4) \<Rightarrow> handleInterrupted m s4
         | (_, s4) \<Rightarrow> s4)"

text \<open>The listener for \<open>ended\<close> that \<open>onmessage\<close> puts on every source it starts.\<close>

definition onended :: "nat \<Rightarrow> app \<Rightarrow> app" where
  "onended source s =
     (let s1 = s\<lparr>audioSourcesRef := removeAll source (audioSourcesRef s)\<rparr>
      in if audioSourcesRef s1 = []
         then s1\<lparr>gameState := LISTENING, jerryReaction := JerryReaction_IDLE\<rparr>
         else s1)"

definition onerror :: "app \<Rightarrow> app" where
  "onerror s =
     stopAudioProcessing False
       ((emit ConsoleError s)\<lparr>error := Some ''An error occurred. Please try again.'',
                              gameState := IDLE\<rparr>)"

definition onclose :: "app \<Rightarrow> app" where
  "onclose s = stopAudioProcessing False (s\<lparr>gameState := IDLE\<rparr>)"

subsection \<open>playGreeting, handleStartGame, handleExitGame\<close>

definition greetingCatch :: "env \<Rightarrow> app \<Rightarrow> app" where
  "greetingCatch e s =
     handleToggleConversation e True
       ((emit ConsoleError s)\<lparr>error := Some ''Couldn't say hello! Starting conversation anyway.''\<rparr>)"

text \<open>\<open>playGreeting\<close> up to its \<open>await\<close> on the greeting request.\<close>

definition playGreeting :: "env \<Rightarrow> string \<Rightarrow> app \<Rightarrow> app" where
  "playGreeting e name s =
     (if apiKeyMissing e then greetingCatch e s
      else
        emit (GenerateContent name)
          ((emit (NewAudioContext OutputContext) s)
             \<lparr>outputAudioContextRef := Some Running,
              jerryReaction := JerryReaction_MIMICKING,
              gameState := GREETING\<rparr>))"

text \<open>
  \<open>playGreeting\<close> after the request answered with the payload \<open>base64Audio\<close>
  (\<open>None\<close>: the answer has none). Decoding and \<open>createBufferSource\<close> throw into the
  \<open>catch\<close> block when decoding fails or the output context is gone.
\<close>

definition greetingResponse :: "env \<Rightarrow> string option \<Rightarrow> app \<Rightarrow> app" where
  "greetingResponse e base64Audio s =
     (case base64Audio of
        None \<Rightarrow> handleToggleConversation e True s
      | Some b \<Rightarrow>
          if b = [] then handleToggleConversation e True s
          else if outputAudioContextRef s = None \<or> decodeAudioData e b = None
               then greetingCatch e s
               else emit GreetingSourceStart s)"

definition handleStartGame :: "env \<Rightarrow> string \<Rightarrow> string \<Rightarrow> GameMode \<Rightarrow> app \<Rightarrow> app" where
  "handleStartGame e name age mode s =
     (if trim name = [] \<or> age = [] then s\<lparr>error := Some ''Please fill out all fields.''\<rparr>
      else playGreeting e name
             (s\<lparr>userName := name, userAge := age, gameMode := mode, error := None\<rparr>))"

definition handleExitGame :: "app \<Rightarrow> app" where
  "handleExitGame s = (stopAudioProcessing True s)\<lparr>gameState := PRE_GAME\<rparr>"

subsection \<open>Events\<close>

text \<open>
  One event per handler entry. \<open>step\<close> accepts every event in every state: what the
  browser and the remote service may deliver, and when, is not restricted here.
\<close>

datatype event =
    StartGame string string GameMode
  | ExitGame
  | ToggleConversation
  | GreetingResponse "string option"
  | GreetingFailed
  | GreetingEnded
  | MediaGranted
  | MediaDenied "string option"
  | OnOpen
  | OnAudioProcess
  | OnMessage LiveServerMessage real
  | OnError
  | OnClose
  | SourceEnded nat
  | ReactionEffect

fun step :: "env \<Rightarrow> app \<Rightarrow> event \<Rightarrow> app" where
  "step e s (StartGame name age mode) = handleStartGame e name age mode s"
| "step e s ExitGame = handleExitGame s"
| "step e s ToggleConversation = handleToggleConversation e False s"
| "step e s (GreetingResponse a) = greetingResponse e a s"
| "step e s GreetingFailed = greetingCatch e s"
| "step e s GreetingEnded = handleToggleConversation e True s"
| "step e s MediaGranted = mediaGranted s"
| "step e s (MediaDenied err) = mediaDenied err s"
| "step e s OnOpen = onopen s"
| "step e s OnAudioProcess = onaudioprocess s"
| "step e s (OnMessage m now) = onmessage e now m s"
| "step e s OnError = onerror s"
| "step e s OnClose = onclose s"
| "step e s (SourceEnded n) = onended n s"
| "step e s ReactionEffect = reactionEffect s"

definition run :: "env \<Rightarrow> event list \<Rightarrow> app \<Rightarrow> app" where
  "run e evs s = foldl (step e) s evs"

subsection \<open>Reading the log, and inputs for the examples\<close>

text \<open>The part of the log that a handler added, going from \<open>s\<close> to \<open>s'\<close>.\<close>

definition newEffects :: "app \<Rightarrow> app \<Rightarrow> effect list" where
  "newEffects s s' = drop (length (effects s)) (effects s')"

fun isToolResponse :: "effect \<Rightarrow> bool" where
  "isToolResponse (SendToolResponse i n) = True"
| "isToolResponse _ = False"

definition toolResponses :: "effect list \<Rightarrow> effect list" where
  "toolResponses es = filter isToolResponse es"

definition reactionCalls :: "FunctionCall list \<Rightarrow> FunctionCall list" where
  "reactionCalls fcs = filter (\<lambda>fc. fc_name fc = ''setJerrysReaction'') fcs"

text \<open>Start time and duration of every \<open>source.start\<close> in a log, in order.\<close>

fun starts :: "effect list \<Rightarrow> (real \<times> real) list" where
  "starts [] = []"
| "starts (SourceStart n t d # es) = (t, d) # starts es"
| "starts (x # es) = starts es"

text \<open>The effects that take hold of a device, a context or the remote service.\<close>

fun isAcquisition :: "effect \<Rightarrow> bool" where
  "isAcquisition (NewAudioContext k) = True"
| "isAcquisition (GenerateContent n) = True"
| "isAcquisition GetUserMedia = True"
| "isAcquisition LiveConnect = True"
| "isAcquisition _ = False"

definition emptyMessage :: LiveServerMessage where
  "emptyMessage = \<lparr> toolCall = None, outputTranscription = None, inputTranscription = None,
     turnComplete = False, modelTurnAudio = None, interrupted = False \<rparr>"

definition demoEnv :: env where
  "demoEnv = \<lparr> API_KEY = Some ''key'', decodeAudioData = (\<lambda>b. Some (real (length b))) \<rparr>"

definition noKeyEnv :: env where
  "noKeyEnv = \<lparr> API_KEY = None, decodeAudioData = (\<lambda>b. Some (real (length b))) \<rparr>"

text \<open>The events of a start that goes well, up to the open session.\<close>

definition openSession :: "event list" where
  "openSession = [StartGame ''Alex'' ''10-18'' AI, GreetingResponse None, MediaGranted, OnOpen]"

definition userSaid :: "string \<Rightarrow> app" where
  "userSaid text =
     run demoEnv (openSession @ [OnMessage (emptyMessage\<lparr>inputTranscription := Some text\<rparr>) 0]) initApp"

definition turnCompleteMessage :: LiveServerMessage where
  "turnCompleteMessage = emptyMessage\<lparr>turnComplete := True\<rparr>"

definition angryCall :: LiveServerMessage where
  "angryCall = emptyMessage\<lparr>toolCall :=
     Some [\<lparr>fc_id = ''call-1'', fc_name = ''setJerrysReaction'', fc_reaction = ''angry''\<rparr>]\<rparr>"

definition audioMessage :: "string \<Rightarrow> LiveServerMessage" where
  "audioMessage b = emptyMessage\<lparr>modelTurnAudio := Some b\<rparr>"

text \<open>An environment in which a payload containing \<open>!\<close> does not decode.\<close>

definition strictEnv :: env where
  "strictEnv = \<lparr> API_KEY = Some ''key'',
     decodeAudioData = (\<lambda>b. if CHR ''!'' \<in> set b then None else Some (real (length b))) \<rparr>"

text \<open>
  Pairs of start time and duration in which no unit starts before the end of its
  predecessor as the code computes it, the rounded sum of start and duration.
\<close>

abbreviation gapless :: "(real \<times> real) list \<Rightarrow> bool" where
  "gapless xs \<equiv> successively (\<lambda>(t1, d1) (t2, d2). addDouble t1 d1 \<le> t2) xs"

text \<open>The events that reset the schedule, and the events whose clock reading is a time.\<close>

fun isInterruption :: "event \<Rightarrow> bool" where
  "isInterruption (OnMessage m now) = interrupted m"
| "isInterruption _ = False"

definition isTime :: "real \<Rightarrow> bool" where
  "isTime x = (0 \<le> x \<and> isDouble x)"

fun readsTime :: "event \<Rightarrow> bool" where
  "readsTime (OnMessage m now) = isTime now"
| "readsTime _ = True"

text \<open>
  The clock of a 24 kHz output context after five render quanta of 128 frames, the double
  nearest to 640 / 24000; a buffer of 12000 frames lasts half a second; the double that
  their sum rounds to.
\<close>

definition fiveQuanta :: real where
  "fiveQuanta = 7686143364045647 / 2 ^ 58"

definition fiveQuantaAndHalf :: real where
  "fiveQuantaAndHalf = 2371895803748461 / 2 ^ 52"

definition halfSecondEnv :: env where
  "halfSecondEnv = \<lparr> API_KEY = Some ''key'', decodeAudioData = (\<lambda>b. Some (1 / 2)) \<rparr>"

text \<open>An open session and a few events in it, two of them messages with audio.\<close>

definition twoUnits :: "event list" where
  "twoUnits = [OnMessage (audioMessage ''AAAA'') 1, OnAudioProcess,
     OnMessage (audioMessage ''BB'') 2, SourceEnded 0]"

text \<open>An open session after a turn in which the character said Hi.\<close>

definition afterTurn :: app where
  "afterTurn =
     run demoEnv (openSession @
       [OnMessage (emptyMessage\<lparr>outputTranscription := Some ''Hi''\<rparr>) 0,
        OnMessage (emptyMessage\<lparr>turnComplete := True\<rparr>) 0]) initApp"

definition nextFragments :: LiveServerMessage where
  "nextFragments =
     emptyMessage\<lparr>outputTranscription := Some ''yo'', inputTranscription := Some ''me''\<rparr>"

text \<open>The state in which the audio block of \<open>onmessage\<close> starts.\<close>

definition beforeAudio :: "LiveServerMessage \<Rightarrow> app \<Rightarrow> app" where
  "beforeAudio m s = handleTurnComplete m (handleTranscription m (handleToolCall m s))"

text \<open>
  The audio block falls through to the interruption block when there is no payload to
  play, or when there is an output context and the payload decodes.
\<close>

definition audioBlockCompletes :: "env \<Rightarrow> LiveServerMessage \<Rightarrow> app \<Rightarrow> bool" where
  "audioBlockCompletes e m s =
     (case modelTurnAudio m of
        None \<Rightarrow> True
      | Some b \<Rightarrow> b = [] \<or> (outputAudioContextRef s \<noteq> None \<and> decodeAudioData e b \<noteq> None))"

text \<open>A session stopped by the user after one unit was scheduled, and a session with one unit playing.\<close>

definition stoppedEarly :: app where
  "stoppedEarly =
     run demoEnv (openSession @ [OnMessage (audioMessage ''AAAA'') 1, ToggleConversation]) initApp"

definition playingOne :: app where
  "playingOne = run strictEnv (openSession @ [OnMessage (audioMessage ''AAAA'') 1]) initApp"

text \<open>What \<open>stopAudioProcessing\<close> adds to the log, as a function of the state it starts in.\<close>

definition teardownEffects :: "app \<Rightarrow> effect list" where
  "teardownEffects s =
     (if sessionPromiseRef s then [SessionClose] else []) @
     (if scriptProcessorRef s \<and> mediaStreamSourceRef s then [DisconnectCaptureNodes] else []) @
     (if mediaStreamRef s then [StopTracks] else []) @
     (if liveContext (inputAudioContextRef s) then [CloseAudioContext InputContext] else []) @
     (if liveContext (outputAudioContextRef s)
      then map SourceStop (audioSourcesRef s) @ [CloseAudioContext OutputContext] else []) @
     (if liveContext (sfxAudioContextRef s) then [CloseAudioContext SfxContext] else [])"

text \<open>
  Sources are only ever added to the active set under an output context, and the context
  is only given up together with the set.
\<close>

definition sourcesHaveContext :: "app \<Rightarrow> bool" where
  "sourcesHaveContext s =
     (outputAudioContextRef s \<noteq> Some Closed \<and>
      (audioSourcesRef s \<noteq> [] \<longrightarrow> outputAudioContextRef s \<noteq> None))"

text \<open>An open session in which the character chose a reaction and said something.\<close>

definition smartHi :: LiveServerMessage where
  "smartHi = emptyMessage\<lparr>toolCall :=
       Some [\<lparr>fc_id = ''call-2'', fc_name = ''setJerrysReaction'', fc_reaction = JerryReaction_SMART\<rparr>],
     outputTranscription := Some ''Hi''\<rparr>"

definition chatting :: app where
  "chatting = run demoEnv (openSession @ [OnMessage smartHi 0]) initApp"

text \<open>A game in mimic mode that the user leaves.\<close>

definition mimicExit :: "event list" where
  "mimicExit = [StartGame ''Alex'' ''10-18'' MIMIC, GreetingResponse None, MediaGranted, OnOpen, ExitGame]"


text \<open>A handler that starts no source and leaves \<open>nextStartTimeRef\<close> alone.\<close>

definition quiet :: "app \<Rightarrow> app \<Rightarrow> bool" where
  "quiet s s' =
     ((\<exists>es. effects s' = effects s @ es \<and> starts es = [])
      \<and> nextStartTimeRef s' = nextStartTimeRef s)"

section \<open>Properties\<close>

subsection \<open>Rounding\<close>

lemma roundHalfEven_ge: "\<lfloor>y\<rfloor> \<le> roundHalfEven y"
  by (simp add: roundHalfEven_def Let_def)

lemma roundHalfEven_le: "roundHalfEven y \<le> \<lfloor>y\<rfloor> + 1"
  by (simp add: roundHalfEven_def Let_def)

lemma roundHalfEven_int [simp]: "roundHalfEven (of_int n) = n"
  by (simp add: roundHalfEven_def Let_def)

lemma roundHalfEven_numeral [simp]: "roundHalfEven (numeral w) = numeral w"
  using roundHalfEven_int [of "numeral w"] by simp

lemma roundDouble_0 [simp]: "roundDouble 0 = 0"
  by (simp add: roundDouble_def)

text \<open>The shift that \<open>roundDouble\<close> chooses, from bounds on the scaled number.\<close>

lemma bitlen_between:
  assumes "(2::int) ^ n \<le> z" and "z < 2 ^ Suc n"
  shows "bitlen z = int (Suc n)"
proof (rule antisym)
  show "bitlen z \<le> int (Suc n)"
    using assms(2) by (simp add: bitlen_le_iff_power nat_add_distrib)
  show "int (Suc n) \<le> bitlen z"
    using assms(1) by (simp add: bitlen_ge_iff_power nat_add_distrib)
qed

lemma floor_between:
  fixes u :: real
  assumes "2 ^ n \<le> u" and "u < 2 ^ Suc n"
  shows "(2::int) ^ n \<le> \<lfloor>u\<rfloor>" and "\<lfloor>u\<rfloor> < 2 ^ Suc n"
proof -
  have "real_of_int (2 ^ n) \<le> u" using assms(1) by simp
  then show "(2::int) ^ n \<le> \<lfloor>u\<rfloor>" by (simp only: le_floor_iff)
  have "u < real_of_int (2 ^ Suc n)" using assms(2) by simp
  then show "\<lfloor>u\<rfloor> < 2 ^ Suc n" by (simp only: floor_less_iff)
qed

text \<open>Evaluation: a positive number scaled into the range of 53-bit significands.\<close>

lemma roundDouble_scaled:
  assumes "0 < x" and "2 ^ 52 \<le> x * 2 ^ s" and "x * 2 ^ s < 2 ^ 53" and "s \<le> minExponent"
  shows "roundDouble x = of_int (roundHalfEven (x * 2 ^ s)) / 2 ^ s"
proof -
  define j where "j = minExponent - s"
  define u where "u = x * 2 ^ minExponent"
  have me: "minExponent = s + j" using assms(4) by (simp add: j_def)
  have u: "u = (x * 2 ^ s) * 2 ^ j"
    by (simp add: u_def me power_add)
  have "(2::real) ^ (52 + j) \<le> u"
    unfolding u power_add using assms(2) by (intro mult_right_mono) simp_all
  moreover have "u < (2::real) ^ Suc (52 + j)"
  proof -
    have "x * 2 ^ s * 2 ^ j < 2 ^ 53 * 2 ^ j"
      using assms(3) by (intro mult_strict_right_mono) simp_all
    then show ?thesis unfolding u by (simp add: power_add)
  qed
  ultimately have "bitlen \<lfloor>u\<rfloor> = int (Suc (52 + j))"
    by (intro bitlen_between floor_between)
  then have k: "shiftOf u = j" by (simp add: shiftOf_def)
  have y: "u / 2 ^ j = x * 2 ^ s" unfolding u by simp
  have "roundDouble x = of_int (roundHalfEven (u / 2 ^ j)) * 2 ^ j / 2 ^ minExponent"
    using assms(1) k by (simp add: roundDouble_def Let_def u_def)
  also have "\<dots> = of_int (roundHalfEven (x * 2 ^ s)) * (2 ^ j / 2 ^ (s + j))"
    by (simp add: y me)
  also have "(2::real) ^ j / 2 ^ (s + j) = 1 / 2 ^ s"
    by (simp add: power_add)
  finally show ?thesis by simp
qed


lemma bitlen_mono: "x \<le> y \<Longrightarrow> bitlen x \<le> bitlen y"
proof (cases "0 < y")
  case True
  assume "x \<le> y"
  then have "x < 2 ^ nat (bitlen y)" using bitlen_bounds [OF True] by simp
  then show ?thesis by (simp add: bitlen_le_iff_power bitlen_nonneg)
next
  case False
  assume "x \<le> y"
  then have "x \<le> 0" using False by simp
  then show ?thesis by (simp add: bitlen_eq_zero_iff [THEN iffD2] bitlen_nonneg)
qed

lemma shiftOf_mono: "u \<le> v \<Longrightarrow> shiftOf u \<le> shiftOf v"
  unfolding shiftOf_def using bitlen_mono [of "\<lfloor>u\<rfloor>" "\<lfloor>v\<rfloor>"]
  by (simp add: floor_mono nat_mono)

lemma shiftOf_upper: "u < 2 ^ (shiftOf u + 53)"
proof -
  have "bitlen \<lfloor>u\<rfloor> \<le> int (shiftOf u + 53)"
    by (simp add: shiftOf_def)
  then have "\<lfloor>u\<rfloor> < 2 ^ (shiftOf u + 53)"
    by (simp only: bitlen_le_iff_power nat_int)
  then have "u < real_of_int (2 ^ (shiftOf u + 53))"
    by (simp only: floor_less_iff)
  then show ?thesis by simp
qed

lemma shiftOf_lower: "0 < shiftOf u \<Longrightarrow> 2 ^ (shiftOf u + 52) \<le> u"
proof -
  assume pos: "0 < shiftOf u"
  then have "int (shiftOf u + 53) \<le> bitlen \<lfloor>u\<rfloor>"
    by (simp add: shiftOf_def)
  then have "(2::int) ^ (shiftOf u + 52) \<le> \<lfloor>u\<rfloor>"
    by (simp add: bitlen_ge_iff_power nat_add_distrib add.commute)
  then have "real_of_int (2 ^ (shiftOf u + 52)) \<le> u"
    by (simp only: le_floor_iff)
  then show ?thesis by simp
qed

lemma roundDouble_pos:
  "0 < x \<Longrightarrow>
   roundDouble x =
     of_int (roundHalfEven (x * 2 ^ minExponent / 2 ^ shiftOf (x * 2 ^ minExponent)))
       * 2 ^ shiftOf (x * 2 ^ minExponent) / 2 ^ minExponent"
  by (simp add: roundDouble_def Let_def)

lemma roundDouble_nonneg: "0 \<le> x \<Longrightarrow> 0 \<le> roundDouble x"
proof (cases "x = 0")
  case False
  assume "0 \<le> x"
  then have x: "0 < x" using False by simp
  have "(0::int) \<le> \<lfloor>x * 2 ^ minExponent / 2 ^ shiftOf (x * 2 ^ minExponent)\<rfloor>"
    using x by simp
  then have "0 \<le> roundHalfEven (x * 2 ^ minExponent / 2 ^ shiftOf (x * 2 ^ minExponent))"
    using roundHalfEven_ge order_trans by blast
  then show ?thesis by (simp add: roundDouble_pos [OF x])
qed simp

text \<open>Adding a non-negative number to a double does not round below the double.\<close>

lemma roundDouble_add_ge:
  assumes "isDouble a" and "0 \<le> a" and "0 \<le> d"
  shows "a \<le> roundDouble (a + d)"
proof (cases "a = 0")
  case True
  then show ?thesis using assms(3) by (simp add: roundDouble_nonneg)
next
  case False
  then have a: "0 < a" using assms(2) by simp
  then have x: "0 < a + d" using assms(3) by simp
  define P :: real where "P = 2 ^ minExponent"
  define ua where "ua = a * P"
  define u where "u = (a + d) * P"
  define ka where "ka = shiftOf ua"
  define k where "k = shiftOf u"
  define Na where "Na = roundHalfEven (ua / 2 ^ ka)"
  have P: "0 < P" by (simp add: P_def)
  have le: "ua \<le> u" using assms(3) P by (simp add: ua_def u_def mult_right_mono)
  have kk: "ka \<le> k" unfolding ka_def k_def using le by (rule shiftOf_mono)
  have "a = of_int Na * 2 ^ ka / P"
    using assms(1) roundDouble_pos [OF a]
    by (simp add: isDouble_def Na_def ka_def ua_def P_def)
  then have ua: "ua = of_int Na * 2 ^ ka" using P by (simp add: ua_def)
  have rd: "roundDouble (a + d) = of_int (roundHalfEven (u / 2 ^ k)) * 2 ^ k / P"
    using roundDouble_pos [OF x] by (simp add: u_def k_def P_def)
  have "ua \<le> of_int \<lfloor>u / 2 ^ k\<rfloor> * 2 ^ k"
  proof (cases "k = ka")
    case True
    have "of_int Na \<le> u / 2 ^ k"
      using le unfolding ua True by (simp add: field_simps)
    then have "Na \<le> \<lfloor>u / 2 ^ k\<rfloor>" by (simp only: le_floor_iff)
    then have "real_of_int Na \<le> of_int \<lfloor>u / 2 ^ k\<rfloor>" by simp
    then show ?thesis unfolding ua True by (intro mult_right_mono) simp_all
  next
    case False
    then have lt: "ka < k" using kk by simp
    then have "0 < shiftOf u" by (simp add: k_def)
    then have "2 ^ (k + 52) \<le> u" unfolding k_def by (rule shiftOf_lower)
    then have "(2::real) ^ 52 * 2 ^ k \<le> u" by (simp add: power_add mult.commute)
    then have "(2::real) ^ 52 \<le> u / 2 ^ k" by (simp only: pos_le_divide_eq zero_less_power zero_less_numeral)
    then have "real_of_int (2 ^ 52) \<le> u / 2 ^ k" by simp
    then have "(2::int) ^ 52 \<le> \<lfloor>u / 2 ^ k\<rfloor>" by (simp only: le_floor_iff)
    then have "real_of_int (2 ^ 52) \<le> of_int \<lfloor>u / 2 ^ k\<rfloor>" by (simp only: of_int_le_iff)
    then have C: "(2::real) ^ 52 * 2 ^ k \<le> of_int \<lfloor>u / 2 ^ k\<rfloor> * 2 ^ k"
      by (intro mult_right_mono) simp_all
    have "ua < 2 ^ (ka + 53)" unfolding ka_def by (rule shiftOf_upper)
    also have "(2::real) ^ (ka + 53) \<le> 2 ^ (52 + k)"
      using lt by (intro power_increasing) simp_all
    also have "(2::real) ^ (52 + k) = 2 ^ 52 * 2 ^ k" by (rule power_add)
    also note C
    finally show ?thesis by (rule less_imp_le)
  qed
  also have "\<dots> \<le> of_int (roundHalfEven (u / 2 ^ k)) * 2 ^ k"
    using roundHalfEven_ge [of "u / 2 ^ k"] by (intro mult_right_mono) simp_all
  finally have "ua \<le> of_int (roundHalfEven (u / 2 ^ k)) * 2 ^ k" .
  then have "a \<le> of_int (roundHalfEven (u / 2 ^ k)) * 2 ^ k / P"
    using P by (simp add: ua_def field_simps)
  then show ?thesis by (simp add: rd)
qed

text \<open>Numbers with a significand of at most 53 bits are doubles.\<close>

lemma roundDouble_whole:
  assumes "0 < x" and "x * 2 ^ minExponent / 2 ^ shiftOf (x * 2 ^ minExponent) = of_int n"
  shows "roundDouble x = x"
proof -
  have "roundDouble x = of_int n * 2 ^ shiftOf (x * 2 ^ minExponent) / 2 ^ minExponent"
    using roundDouble_pos [OF assms(1)] by (simp add: assms(2))
  also have "\<dots> = x" by (simp add: assms(2) [symmetric])
  finally show ?thesis .
qed

lemma isDouble_significand:
  assumes "0 \<le> m" and "m \<le> 2 ^ 53"
  shows "isDouble (of_int m * 2 ^ j / 2 ^ minExponent)"
proof (cases "m = 0")
  case True
  then show ?thesis by (simp add: isDouble_def)
next
  case False
  then have m: "0 < m" using assms(1) by simp
  define x :: real where "x = of_int m * 2 ^ j / 2 ^ minExponent"
  have x: "0 < x" using m by (simp add: x_def)
  have u: "x * 2 ^ minExponent = of_int (m * 2 ^ j)" by (simp add: x_def)
  define k where "k = nat (bitlen m + int j - 53)"
  have sh: "shiftOf (real_of_int (m * 2 ^ j)) = k"
    unfolding shiftOf_def k_def using m by (simp only: floor_of_int bitlen_pow2)
  have "\<exists>n. real_of_int (m * 2 ^ j) / 2 ^ k = of_int n"
  proof (cases "k \<le> j")
    case True
    then obtain i where i: "j = k + i" using le_Suc_ex by blast
    have "real_of_int (m * 2 ^ j) / 2 ^ k = of_int (m * 2 ^ i)"
      by (simp add: i power_add)
    then show ?thesis by blast
  next
    case False
    then have "54 \<le> bitlen m" by (simp add: k_def)
    then have "(2::int) ^ 53 \<le> m" by (simp add: bitlen_ge_iff_power)
    then have m53: "m = 2 ^ 53" using assms(2) by simp
    then have "bitlen m = 54" using bitlen_between [of 53 m] by simp
    then have kj: "k = Suc j" by (simp add: k_def)
    have "real_of_int (m * 2 ^ j) / 2 ^ k = of_int (2 ^ 52)"
      by (simp add: m53 kj)
    then show ?thesis by blast
  qed
  then obtain n where "x * 2 ^ minExponent / 2 ^ shiftOf (x * 2 ^ minExponent) = of_int n"
    unfolding u sh by blast
  with x have "roundDouble x = x" by (rule roundDouble_whole)
  then show ?thesis by (simp add: isDouble_def x_def)
qed

lemma isDouble_roundDouble:
  assumes "0 \<le> x"
  shows "isDouble (roundDouble x)"
proof (cases "x = 0")
  case True
  then show ?thesis by (simp add: isDouble_def)
next
  case False
  then have x: "0 < x" using assms by simp
  define u where "u = x * 2 ^ minExponent"
  define k where "k = shiftOf u"
  define N where "N = roundHalfEven (u / 2 ^ k)"
  have "0 \<le> u" using x by (simp add: u_def)
  then have "(0::int) \<le> \<lfloor>u / 2 ^ k\<rfloor>" by simp
  then have N0: "0 \<le> N" unfolding N_def using roundHalfEven_ge order_trans by blast
  have "u < 2 ^ (k + 53)" unfolding k_def by (rule shiftOf_upper)
  then have "u / 2 ^ k < 2 ^ 53" by (simp add: field_simps power_add)
  then have "u / 2 ^ k < real_of_int (2 ^ 53)" by simp
  then have "\<lfloor>u / 2 ^ k\<rfloor> < 2 ^ 53" by (simp only: floor_less_iff)
  moreover have "N \<le> \<lfloor>u / 2 ^ k\<rfloor> + 1" unfolding N_def by (rule roundHalfEven_le)
  ultimately have N1: "N \<le> 2 ^ 53" by linarith
  have "roundDouble x = of_int N * 2 ^ k / 2 ^ minExponent"
    using roundDouble_pos [OF x] by (simp add: N_def k_def u_def)
  then show ?thesis using isDouble_significand [OF N0 N1, of k] by simp
qed

lemma isDouble_0 [simp]: "isDouble 0"
  by (simp add: isDouble_def)

lemma isDouble_of_int:
  assumes "0 \<le> n" and "n \<le> 2 ^ 53"
  shows "isDouble (of_int n)"
  using isDouble_significand [OF assms, of minExponent] by simp

lemma roundDouble_numeral [simp]:
  "(numeral w :: int) \<le> 9007199254740992 \<Longrightarrow> roundDouble (numeral w) = numeral w"
  using isDouble_of_int [of "numeral w"] by (simp add: isDouble_def)

lemma roundDouble_1 [simp]: "roundDouble 1 = 1"
  using isDouble_of_int [of 1] by (simp add: isDouble_def)

lemma isDouble_numeral [simp]:
  "(numeral w :: int) \<le> 9007199254740992 \<Longrightarrow> isDouble (numeral w)"
  by (simp add: isDouble_def)

lemma isDouble_1 [simp]: "isDouble 1"
  by (simp add: isDouble_def)

lemma isDouble_max: "isDouble a \<Longrightarrow> isDouble b \<Longrightarrow> isDouble (max a b)"
  by (simp add: max_def)

lemma isTime_max: "isTime a \<Longrightarrow> isTime b \<Longrightarrow> isTime (max a b)"
  by (simp add: max_def)

lemma isTime_addDouble: "isTime a \<Longrightarrow> 0 \<le> d \<Longrightarrow> isTime (addDouble a d)"
  by (simp add: isTime_def addDouble_def roundDouble_nonneg isDouble_roundDouble)

lemma addDouble_ge: "isTime a \<Longrightarrow> 0 \<le> d \<Longrightarrow> a \<le> addDouble a d"
  by (simp add: isTime_def addDouble_def roundDouble_add_ge)

text \<open>The sum that rounds below the exact one.\<close>

lemma fiveQuanta_sum: "addDouble fiveQuanta (1 / 2) = fiveQuantaAndHalf"
  using roundDouble_scaled [of "7686143364045647 / 2 ^ 58 + 1 / 2" 53]
  by (simp add: addDouble_def fiveQuanta_def fiveQuantaAndHalf_def roundHalfEven_def
        minExponent_def)

lemma fiveQuanta_order:
  "0 \<le> fiveQuanta" "fiveQuanta \<le> fiveQuantaAndHalf" "fiveQuantaAndHalf < fiveQuanta + 1 / 2"
  by (simp_all add: fiveQuanta_def fiveQuantaAndHalf_def)

subsection \<open>Auxiliary facts\<close>

lemma trim_Nil_iff: "trim s = [] \<longleftrightarrow> (\<forall>c \<in> set s. isWhiteSpace c)"
proof -
  have "trim s = [] \<longleftrightarrow> dropWhile isWhiteSpace (rev (dropWhile isWhiteSpace s)) = []"
    by (simp add: trim_def)
  also have "\<dots> \<longleftrightarrow> (\<forall>c \<in> set (dropWhile isWhiteSpace s). isWhiteSpace c)"
    by (simp add: dropWhile_eq_Nil_conv)
  also have "\<dots> \<longleftrightarrow> dropWhile isWhiteSpace s = []"
    by (metis dropWhile_eq_Nil_conv dropWhile_idem)
  also have "\<dots> \<longleftrightarrow> (\<forall>c \<in> set s. isWhiteSpace c)"
    by (simp add: dropWhile_eq_Nil_conv)
  finally show ?thesis .
qed

lemma stopSources_eq: "stopSources ns s = s\<lparr>effects := effects s @ map SourceStop ns\<rparr>"
  by (induction ns arbitrary: s) (simp_all add: emit_def)

lemma onmessage_alt:
  "onmessage e now m s =
     (let r = handleAudio e now m (handleTurnComplete m (handleTranscription m (handleToolCall m s)))
      in if fst r = Normal then handleInterrupted m (snd r) else snd r)"
  by (simp add: onmessage_def Let_def split: prod.split completion.split)

text \<open>Fields that the tool-call block leaves as they are.\<close>

lemma handleFunctionCall_frame:
  "gameState (handleFunctionCall fc s) = gameState s"
  "userTranscript (handleFunctionCall fc s) = userTranscript s"
  "jerryTranscript (handleFunctionCall fc s) = jerryTranscript s"
  "currentInputTranscriptionRef (handleFunctionCall fc s) = currentInputTranscriptionRef s"
  "currentOutputTranscriptionRef (handleFunctionCall fc s) = currentOutputTranscriptionRef s"
  "nextStartTimeRef (handleFunctionCall fc s) = nextStartTimeRef s"
  "audioSourcesRef (handleFunctionCall fc s) = audioSourcesRef s"
  "outputAudioContextRef (handleFunctionCall fc s) = outputAudioContextRef s"
  "sessionPromiseRef (handleFunctionCall fc s) = sessionPromiseRef s"
  by (simp_all add: handleFunctionCall_def emit_def Let_def)

lemma fold_handleFunctionCall_frame:
  "gameState (fold handleFunctionCall fcs s) = gameState s"
  "userTranscript (fold handleFunctionCall fcs s) = userTranscript s"
  "jerryTranscript (fold handleFunctionCall fcs s) = jerryTranscript s"
  "currentInputTranscriptionRef (fold handleFunctionCall fcs s) = currentInputTranscriptionRef s"
  "currentOutputTranscriptionRef (fold handleFunctionCall fcs s) = currentOutputTranscriptionRef s"
  "nextStartTimeRef (fold handleFunctionCall fcs s) = nextStartTimeRef s"
  "audioSourcesRef (fold handleFunctionCall fcs s) = audioSourcesRef s"
  "outputAudioContextRef (fold handleFunctionCall fcs s) = outputAudioContextRef s"
  "sessionPromiseRef (fold handleFunctionCall fcs s) = sessionPromiseRef s"
  by (induction fcs arbitrary: s) (simp_all add: handleFunctionCall_frame)

lemma handleToolCall_frame:
  "gameState (handleToolCall m s) = gameState s"
  "userTranscript (handleToolCall m s) = userTranscript s"
  "jerryTranscript (handleToolCall m s) = jerryTranscript s"
  "currentInputTranscriptionRef (handleToolCall m s) = currentInputTranscriptionRef s"
  "currentOutputTranscriptionRef (handleToolCall m s) = currentOutputTranscriptionRef s"
  "nextStartTimeRef (handleToolCall m s) = nextStartTimeRef s"
  "audioSourcesRef (handleToolCall m s) = audioSourcesRef s"
  "outputAudioContextRef (handleToolCall m s) = outputAudioContextRef s"
  "sessionPromiseRef (handleToolCall m s) = sessionPromiseRef s"
  by (simp_all add: handleToolCall_def fold_handleFunctionCall_frame split: option.split)

text \<open>Fields that the audio block and the interruption block leave as they are.\<close>

lemma handleAudio_frame:
  "userTranscript (snd (handleAudio e now m s)) = userTranscript s"
  "jerryTranscript (snd (handleAudio e now m s)) = jerryTranscript s"
  "currentInputTranscriptionRef (snd (handleAudio e now m s)) = currentInputTranscriptionRef s"
  "currentOutputTranscriptionRef (snd (handleAudio e now m s)) = currentOutputTranscriptionRef s"
  "jerryReaction (snd (handleAudio e now m s)) = jerryReaction s"
  "outputAudioContextRef (snd (handleAudio e now m s)) = outputAudioContextRef s"
  "sessionPromiseRef (snd (handleAudio e now m s)) = sessionPromiseRef s"
  by (simp_all add: handleAudio_def emit_def Let_def split: option.split)

lemma handleInterrupted_frame:
  "gameState (handleInterrupted m s) = gameState s"
  "userTranscript (handleInterrupted m s) = userTranscript s"
  "jerryTranscript (handleInterrupted m s) = jerryTranscript s"
  "currentInputTranscriptionRef (handleInterrupted m s) = currentInputTranscriptionRef s"
  "currentOutputTranscriptionRef (handleInterrupted m s) = currentOutputTranscriptionRef s"
  "jerryReaction (handleInterrupted m s) = jerryReaction s"
  "outputAudioContextRef (handleInterrupted m s) = outputAudioContextRef s"
  "sessionPromiseRef (handleInterrupted m s) = sessionPromiseRef s"
  by (simp_all add: handleInterrupted_def stopSources_eq)

text \<open>
  The transcripts and the reaction at the end of \<open>onmessage\<close> are those at the end
  of its turn-complete block.
\<close>

lemma onmessage_text_frame:
  "userTranscript (onmessage e now m s) =
     userTranscript (handleTurnComplete m (handleTranscription m (handleToolCall m s)))"
  "jerryTranscript (onmessage e now m s) =
     jerryTranscript (handleTurnComplete m (handleTranscription m (handleToolCall m s)))"
  "currentInputTranscriptionRef (onmessage e now m s) =
     currentInputTranscriptionRef (handleTurnComplete m (handleTranscription m (handleToolCall m s)))"
  "currentOutputTranscriptionRef (onmessage e now m s) =
     currentOutputTranscriptionRef (handleTurnComplete m (handleTranscription m (handleToolCall m s)))"
  "jerryReaction (onmessage e now m s) =
     jerryReaction (handleTurnComplete m (handleTranscription m (handleToolCall m s)))"
  by (simp_all add: onmessage_alt Let_def handleInterrupted_frame handleAudio_frame)

lemma handleAudio_noAudio: "modelTurnAudio m = None \<Longrightarrow> handleAudio e now m s = (Normal, s)"
  by (simp add: handleAudio_def)

lemma onmessage_gameState_noAudio:
  "modelTurnAudio m = None \<Longrightarrow>
   gameState (onmessage e now m s) =
     gameState (handleTurnComplete m (handleTranscription m (handleToolCall m s)))"
  by (simp add: onmessage_alt handleAudio_noAudio handleInterrupted_frame)

lemma handleTranscription_gameState: "gameState (handleTranscription m s) = gameState s"
  by (simp add: handleTranscription_def Let_def split: option.split)

text \<open>Unfolding every handler, for evaluating the model on given inputs.\<close>

lemmas handler_defs =
  handleStartGame_def playGreeting_def greetingResponse_def greetingCatch_def handleExitGame_def
  handleToggleConversation_def toggleCatch_def mediaGranted_def mediaDenied_def
  stopAudioProcessing_def closeSession_def disconnectCapture_def stopMediaStream_def
  closeInputContext_def closeOutputContext_def closeSfxContext_def resetOnExit_def
  onopen_def onaudioprocess_def onmessage_def handleToolCall_def handleFunctionCall_def
  handleTranscription_def handleTurnComplete_def handleAudio_def handleInterrupted_def
  onended_def onerror_def onclose_def reactionEffect_def
  emit_def liveContext_def apiKeyMissing_def trim_def isWhiteSpace_def addDouble_def Let_def

lemmas example_defs =
  run_def openSession_def demoEnv_def noKeyEnv_def strictEnv_def emptyMessage_def initApp_def
  audioMessage_def newEffects_def halfSecondEnv_def

subsection \<open>Start of the game with a blank field\<close>

text \<open>
  C9. When the name is empty or all white space, or no age is selected, \<open>handleStartGame\<close>
  changes nothing but the error message, which becomes the validation message: the state of
  the conversation stays where it was (\<open>PRE_GAME\<close> on the intro screen) and nothing is
  requested from the outside, neither the greeting nor a session.
\<close>

theorem handleStartGame_blank:
  assumes "(\<forall>c \<in> set name. isWhiteSpace c) \<or> age = []"
  shows "handleStartGame e name age mode s = s\<lparr>error := Some ''Please fill out all fields.''\<rparr>
       \<and> gameState (handleStartGame e name age mode s) = gameState s
       \<and> effects (handleStartGame e name age mode s) = effects s"
  using assms by (auto simp add: handleStartGame_def trim_Nil_iff)

theorem handleStartGame_blank_witness:
  "isWhiteSpace CHR '' ''
   \<and> handleStartGame demoEnv '' '' ''10-18'' MIMIC initApp
       = initApp\<lparr>error := Some ''Please fill out all fields.''\<rparr>
   \<and> gameState (handleStartGame demoEnv '' '' ''10-18'' MIMIC initApp) = PRE_GAME
   \<and> effects (handleStartGame demoEnv '' '' ''10-18'' MIMIC initApp) = []"
  using handleStartGame_blank [of "'' ''" "''10-18''" demoEnv MIMIC initApp]
  by (simp add: isWhiteSpace_def initApp_def)

subsection \<open>A message with both transcriptions\<close>

text \<open>
  The claim C10 says that the character's fragment is appended to the display transcript.
  The handler sets the display transcript to the pending buffer. After a completed turn
  in which the character said Hi, the display transcript is \<open>Hi\<close> followed by a space
  and the pending buffer is empty; a message with both fragments then leaves \<open>yo\<close> as the
  display transcript, not the old text followed by \<open>yo\<close>.
\<close>

theorem display_replaced_counterexample:
  "jerryTranscript afterTurn = ''Hi ''
   \<and> currentOutputTranscriptionRef afterTurn = []
   \<and> jerryTranscript (onmessage demoEnv 0 nextFragments afterTurn) = ''yo''
   \<and> jerryTranscript (onmessage demoEnv 0 nextFragments afterTurn)
        \<noteq> jerryTranscript afterTurn @ ''yo''"
  by (simp add: afterTurn_def nextFragments_def example_defs handler_defs)

text \<open>
  C10, amended. When one message carries an output (character) transcription and an input
  (user) transcription, the transcription block takes the first branch only: the
  character's fragment is appended to the character's pending buffer and the character's
  display transcript is set to that buffer (the fragments of the current turn), while the
  user's pending buffer and display transcript stay as they were. The same holds at the
  end of the whole handler when the message does not also complete the turn.
\<close>

theorem transcription_both:
  assumes "outputTranscription m = Some t" and "inputTranscription m = Some u"
  shows "currentOutputTranscriptionRef (handleTranscription m s) = currentOutputTranscriptionRef s @ t
       \<and> jerryTranscript (handleTranscription m s) = currentOutputTranscriptionRef s @ t
       \<and> currentInputTranscriptionRef (handleTranscription m s) = currentInputTranscriptionRef s
       \<and> userTranscript (handleTranscription m s) = userTranscript s
       \<and> (\<not> turnComplete m \<longrightarrow>
            currentOutputTranscriptionRef (onmessage e now m s) = currentOutputTranscriptionRef s @ t
          \<and> jerryTranscript (onmessage e now m s) = currentOutputTranscriptionRef s @ t
          \<and> currentInputTranscriptionRef (onmessage e now m s) = currentInputTranscriptionRef s
          \<and> userTranscript (onmessage e now m s) = userTranscript s)"
  using assms
  by (simp add: onmessage_text_frame handleTurnComplete_def handleTranscription_def Let_def
        handleToolCall_frame)

lemma afterTurn_fields:
  "currentOutputTranscriptionRef afterTurn = []"
  "currentInputTranscriptionRef afterTurn = []"
  "userTranscript afterTurn = '' ''"
  by (simp_all add: afterTurn_def example_defs handler_defs)

theorem transcription_both_witness:
  "outputTranscription nextFragments = Some ''yo''
   \<and> inputTranscription nextFragments = Some ''me''
   \<and> currentOutputTranscriptionRef (onmessage demoEnv 0 nextFragments afterTurn) = ''yo''
   \<and> jerryTranscript (onmessage demoEnv 0 nextFragments afterTurn) = ''yo''
   \<and> currentInputTranscriptionRef (onmessage demoEnv 0 nextFragments afterTurn) = []
   \<and> userTranscript (onmessage demoEnv 0 nextFragments afterTurn) = '' ''"
  using transcription_both [of nextFragments "''yo''" "''me''" afterTurn demoEnv 0]
  by (simp add: nextFragments_def emptyMessage_def afterTurn_fields)

subsection \<open>Turn completion\<close>

text \<open>
  The claim C4 reads: on turn-complete, if the pending user text is non-empty, the state
  becomes Thinking and the reaction thinking. The handler tests the trimmed text. After the
  user transcription \<open>'' ''\<close> (one space) in an open session, the pending user text is not
  empty, and a turn-complete message leaves the state at \<open>LISTENING\<close> and the reaction
  as the greeting left it.
\<close>

theorem turnComplete_blank_counterexample:
  "currentInputTranscriptionRef (userSaid '' '') \<noteq> []
   \<and> gameState (onmessage demoEnv 0 turnCompleteMessage (userSaid '' '')) = LISTENING
   \<and> jerryReaction (onmessage demoEnv 0 turnCompleteMessage (userSaid '' '')) = JerryReaction_MIMICKING"
  by (simp add: userSaid_def turnCompleteMessage_def example_defs handler_defs)

text \<open>
  C4, amended. Let \<open>s2\<close> be the state when the turn-complete block is reached (after the
  tool-call and transcription blocks of the same message). On every turn-complete message
  both pending buffers end empty and each display transcript is the one of \<open>s2\<close> followed
  by one space. If the pending user text of \<open>s2\<close> is non-empty after trimming white space,
  the reaction becomes thinking and the block sets the state to \<open>THINKING\<close>, which is
  the state at the end of the handler when the message carries no audio; if the trimmed
  text is empty, reaction and state are left as they were.
\<close>

theorem turnComplete_trimmed:
  assumes "turnComplete m"
  shows "let s2 = handleTranscription m (handleToolCall m s); s' = onmessage e now m s in
       currentInputTranscriptionRef s' = [] \<and> currentOutputTranscriptionRef s' = []
     \<and> userTranscript s' = userTranscript s2 @ '' ''
     \<and> jerryTranscript s' = jerryTranscript s2 @ '' ''
     \<and> (trim (currentInputTranscriptionRef s2) \<noteq> [] \<longrightarrow>
          jerryReaction s' = JerryReaction_THINKING
        \<and> gameState (handleTurnComplete m s2) = THINKING
        \<and> (modelTurnAudio m = None \<longrightarrow> gameState s' = THINKING))
     \<and> (trim (currentInputTranscriptionRef s2) = [] \<longrightarrow>
          jerryReaction s' = jerryReaction s2
        \<and> gameState (handleTurnComplete m s2) = gameState s
        \<and> (modelTurnAudio m = None \<longrightarrow> gameState s' = gameState s))"
  using assms
  by (simp add: Let_def onmessage_text_frame onmessage_gameState_noAudio handleTurnComplete_def
        handleTranscription_gameState handleToolCall_frame)

theorem turnComplete_trimmed_witness:
  "turnComplete turnCompleteMessage
   \<and> modelTurnAudio turnCompleteMessage = None
   \<and> trim (currentInputTranscriptionRef (userSaid ''hi'')) \<noteq> []
   \<and> gameState (userSaid ''hi'') = LISTENING
   \<and> gameState (onmessage demoEnv 0 turnCompleteMessage (userSaid ''hi'')) = THINKING
   \<and> jerryReaction (onmessage demoEnv 0 turnCompleteMessage (userSaid ''hi'')) = JerryReaction_THINKING
   \<and> userTranscript (onmessage demoEnv 0 turnCompleteMessage (userSaid ''hi'')) = ''hi ''
   \<and> jerryTranscript (onmessage demoEnv 0 turnCompleteMessage (userSaid ''hi'')) = '' ''
   \<and> currentInputTranscriptionRef (onmessage demoEnv 0 turnCompleteMessage (userSaid ''hi'')) = []
   \<and> currentOutputTranscriptionRef (onmessage demoEnv 0 turnCompleteMessage (userSaid ''hi'')) = []"
  using turnComplete_trimmed [of turnCompleteMessage "userSaid ''hi''" demoEnv 0]
  by (simp add: userSaid_def turnCompleteMessage_def example_defs handler_defs)

subsection \<open>Tool calls\<close>

lemma toolResponses_append: "toolResponses (xs @ ys) = toolResponses xs @ toolResponses ys"
  by (simp add: toolResponses_def)

lemma fold_handleFunctionCall_responses:
  "toolResponses (effects (fold handleFunctionCall fcs s)) =
     toolResponses (effects s) @
       (if sessionPromiseRef s
        then map (\<lambda>fc. SendToolResponse (fc_id fc) (fc_name fc)) (reactionCalls fcs) else [])"
proof (induction fcs arbitrary: s)
  case Nil
  then show ?case by (simp add: reactionCalls_def)
next
  case (Cons fc fcs)
  have step: "toolResponses (effects (handleFunctionCall fc s)) =
      toolResponses (effects s) @
        (if sessionPromiseRef s \<and> fc_name fc = ''setJerrysReaction''
         then [SendToolResponse (fc_id fc) (fc_name fc)] else [])"
    by (simp add: handleFunctionCall_def emit_def toolResponses_def Let_def)
  show ?case
    using Cons.IH [of "handleFunctionCall fc s"] step
    by (simp add: handleFunctionCall_frame reactionCalls_def)
qed

lemma fold_handleFunctionCall_reaction:
  "jerryReaction (fold handleFunctionCall fcs s) =
     (if reactionCalls fcs = [] then jerryReaction s else fc_reaction (last (reactionCalls fcs)))"
proof (induction fcs arbitrary: s)
  case Nil
  then show ?case by (simp add: reactionCalls_def)
next
  case (Cons fc fcs)
  have step: "jerryReaction (handleFunctionCall fc s) =
      (if fc_name fc = ''setJerrysReaction'' then fc_reaction fc else jerryReaction s)"
    by (simp add: handleFunctionCall_def emit_def Let_def)
  show ?case
    using Cons.IH [of "handleFunctionCall fc s"] step
    by (simp add: reactionCalls_def)
qed

lemma handleTranscription_effects: "effects (handleTranscription m s) = effects s"
  by (simp add: handleTranscription_def Let_def split: option.split)

lemma handleTranscription_reaction: "jerryReaction (handleTranscription m s) = jerryReaction s"
  by (simp add: handleTranscription_def Let_def split: option.split)

lemma handleTurnComplete_effects: "effects (handleTurnComplete m s) = effects s"
  by (simp add: handleTurnComplete_def Let_def)

lemma handleAudio_responses:
  "toolResponses (effects (snd (handleAudio e now m s))) = toolResponses (effects s)"
  by (simp add: handleAudio_def emit_def Let_def toolResponses_def split: option.split)

lemma handleInterrupted_responses:
  "toolResponses (effects (handleInterrupted m s)) = toolResponses (effects s)"
proof -
  have "toolResponses (map SourceStop ns) = []" for ns
    by (induction ns) (simp_all add: toolResponses_def)
  then show ?thesis
    by (simp add: handleInterrupted_def stopSources_eq toolResponses_append)
qed

lemma onmessage_responses:
  "toolResponses (effects (onmessage e now m s)) = toolResponses (effects (handleToolCall m s))"
  by (simp add: onmessage_alt Let_def handleInterrupted_responses handleAudio_responses
        handleTurnComplete_effects handleTranscription_effects)

text \<open>
  The claim C6 reads: a tool invocation naming an unrecognized reaction leaves the reaction
  unchanged. The handler stores \<open>fc.args.reaction\<close> as it comes. In an open session
  whose reaction is the greeting's, the invocation of \<open>setJerrysReaction\<close> with the
  value \<open>angry\<close>, which the enumeration does not have, makes \<open>angry\<close> the reaction.
\<close>

theorem unknown_reaction_counterexample:
  "''angry'' \<notin> set reactionEnum
   \<and> jerryReaction (run demoEnv openSession initApp) = JerryReaction_MIMICKING
   \<and> jerryReaction (onmessage demoEnv 0 angryCall (run demoEnv openSession initApp)) = ''angry''"
  by (simp add: angryCall_def reactionEnum_def example_defs handler_defs)

text \<open>
  C6, amended. For a message with tool calls, every invocation of \<open>setJerrysReaction\<close>
  is answered by exactly one acknowledgment carrying the invocation's id and name, queued
  in the order of the invocations before the handler ends, provided the session handle is
  present (none is queued without it). The reaction becomes the value named by the last
  such invocation, whatever that value is, unless the same message completes a turn.
\<close>

theorem toolCall_acknowledged:
  assumes "toolCall m = Some fcs"
  shows "toolResponses (effects (onmessage e now m s)) =
           toolResponses (effects s) @
             (if sessionPromiseRef s
              then map (\<lambda>fc. SendToolResponse (fc_id fc) (fc_name fc)) (reactionCalls fcs)
              else [])
       \<and> (reactionCalls fcs \<noteq> [] \<and> \<not> turnComplete m \<longrightarrow>
            jerryReaction (onmessage e now m s) = fc_reaction (last (reactionCalls fcs)))"
  using assms
  by (simp add: onmessage_responses onmessage_text_frame handleToolCall_def
        fold_handleFunctionCall_responses fold_handleFunctionCall_reaction
        handleTurnComplete_def handleTranscription_reaction)

theorem toolCall_acknowledged_witness:
  "sessionPromiseRef (run demoEnv openSession initApp)
   \<and> toolResponses (effects (run demoEnv openSession initApp)) = []
   \<and> toolResponses (effects (onmessage demoEnv 0 angryCall (run demoEnv openSession initApp)))
       = [SendToolResponse ''call-1'' ''setJerrysReaction'']
   \<and> jerryReaction (onmessage demoEnv 0 angryCall (run demoEnv openSession initApp)) = ''angry''"
  using toolCall_acknowledged [of angryCall
      "[\<lparr>fc_id = ''call-1'', fc_name = ''setJerrysReaction'', fc_reaction = ''angry''\<rparr>]"
      demoEnv 0 "run demoEnv openSession initApp"]
  by (simp add: angryCall_def reactionCalls_def toolResponses_def example_defs handler_defs)

subsection \<open>The playback schedule\<close>

lemma starts_append: "starts (xs @ ys) = starts xs @ starts ys"
  by (induction xs rule: starts.induct) simp_all

lemma starts_stops: "starts (map SourceStop ns) = []"
  by (induction ns) simp_all

lemma fold_handleFunctionCall_effects:
  "effects (fold handleFunctionCall fcs s) =
     effects s @
       (if sessionPromiseRef s
        then map (\<lambda>fc. SendToolResponse (fc_id fc) (fc_name fc)) (reactionCalls fcs) else [])"
proof (induction fcs arbitrary: s)
  case Nil
  then show ?case by (simp add: reactionCalls_def)
next
  case (Cons fc fcs)
  have step: "effects (handleFunctionCall fc s) =
      effects s @
        (if sessionPromiseRef s \<and> fc_name fc = ''setJerrysReaction''
         then [SendToolResponse (fc_id fc) (fc_name fc)] else [])"
    by (simp add: handleFunctionCall_def emit_def Let_def)
  show ?case
    using Cons.IH [of "handleFunctionCall fc s"] step
    by (simp add: handleFunctionCall_frame reactionCalls_def)
qed

lemma handleToolCall_starts: "starts (effects (handleToolCall m s)) = starts (effects s)"
proof -
  have "starts (map (\<lambda>fc. SendToolResponse (fc_id fc) (fc_name fc)) fcs) = []" for fcs :: "FunctionCall list"
    by (induction fcs) simp_all
  then show ?thesis
    by (simp add: handleToolCall_def fold_handleFunctionCall_effects starts_append split: option.split)
qed

lemma handleToolCall_prefix: "\<exists>es. effects (handleToolCall m s) = effects s @ es"
  by (simp add: handleToolCall_def fold_handleFunctionCall_effects split: option.split)

lemma handleTranscription_audio_frame:
  "nextStartTimeRef (handleTranscription m s) = nextStartTimeRef s"
  "audioSourcesRef (handleTranscription m s) = audioSourcesRef s"
  "outputAudioContextRef (handleTranscription m s) = outputAudioContextRef s"
  by (simp_all add: handleTranscription_def Let_def split: option.split)

lemma handleTurnComplete_audio_frame:
  "nextStartTimeRef (handleTurnComplete m s) = nextStartTimeRef s"
  "audioSourcesRef (handleTurnComplete m s) = audioSourcesRef s"
  "outputAudioContextRef (handleTurnComplete m s) = outputAudioContextRef s"
  by (simp_all add: handleTurnComplete_def Let_def)

lemma beforeAudio_frame:
  "nextStartTimeRef (beforeAudio m s) = nextStartTimeRef s"
  "audioSourcesRef (beforeAudio m s) = audioSourcesRef s"
  "outputAudioContextRef (beforeAudio m s) = outputAudioContextRef s"
  "starts (effects (beforeAudio m s)) = starts (effects s)"
  "\<exists>es. effects (beforeAudio m s) = effects s @ es"
  by (simp_all add: beforeAudio_def handleTurnComplete_audio_frame handleTranscription_audio_frame
        handleToolCall_frame handleTurnComplete_effects handleTranscription_effects
        handleToolCall_starts handleToolCall_prefix)

lemma handleAudio_scheduled:
  assumes "modelTurnAudio m = Some b" "b \<noteq> []" "outputAudioContextRef s \<noteq> None"
    "decodeAudioData e b = Some d"
  shows "handleAudio e now m s =
    (Normal, s\<lparr>gameState := TALKING,
               nextStartTimeRef := addDouble (max (nextStartTimeRef s) now) d,
               audioSourcesRef := audioSourcesRef s @ [nextSourceId s],
               nextSourceId := Suc (nextSourceId s),
               effects := effects s @ [SourceStart (nextSourceId s) (max (nextStartTimeRef s) now) d]\<rparr>)"
  using assms by (simp add: handleAudio_def emit_def Let_def)

lemma handleAudio_schedule:
  "\<exists>es. effects (snd (handleAudio e now m s)) = effects s @ es \<and>
     ((starts es = [] \<and>
       (nextStartTimeRef (snd (handleAudio e now m s)) = nextStartTimeRef s \<or>
        nextStartTimeRef (snd (handleAudio e now m s)) = max (nextStartTimeRef s) now)) \<or>
      (\<exists>b d. decodeAudioData e b = Some d \<and> starts es = [(max (nextStartTimeRef s) now, d)]
         \<and> nextStartTimeRef (snd (handleAudio e now m s)) = addDouble (max (nextStartTimeRef s) now) d))"
proof (cases "modelTurnAudio m")
  case None
  then show ?thesis by (simp add: handleAudio_def)
next
  case (Some b)
  show ?thesis
  proof (cases "b = [] \<or> outputAudioContextRef s = None")
    case True
    then show ?thesis using Some by (auto simp add: handleAudio_def Let_def)
  next
    case False
    show ?thesis
    proof (cases "decodeAudioData e b")
      case None
      then show ?thesis using Some False by (auto simp add: handleAudio_def Let_def)
    next
      case (Some d)
      then show ?thesis
        using \<open>modelTurnAudio m = Some b\<close> False handleAudio_scheduled [of m b s e d now]
        by auto
    qed
  qed
qed

lemma onmessage_not_interrupted:
  "\<not> interrupted m \<Longrightarrow> onmessage e now m s = snd (handleAudio e now m (beforeAudio m s))"
  by (simp add: onmessage_alt Let_def handleInterrupted_def beforeAudio_def)

lemma onmessage_schedule:
  assumes "\<not> interrupted m"
  shows "\<exists>es. effects (onmessage e now m s) = effects s @ es \<and>
     ((starts es = [] \<and>
       (nextStartTimeRef (onmessage e now m s) = nextStartTimeRef s \<or>
        nextStartTimeRef (onmessage e now m s) = max (nextStartTimeRef s) now)) \<or>
      (\<exists>b d. decodeAudioData e b = Some d \<and> starts es = [(max (nextStartTimeRef s) now, d)]
         \<and> nextStartTimeRef (onmessage e now m s) = addDouble (max (nextStartTimeRef s) now) d))"
proof -
  let ?a = "snd (handleAudio e now m (beforeAudio m s))"
  obtain es0 where es0: "effects (beforeAudio m s) = effects s @ es0"
    using beforeAudio_frame(5) by blast
  have st0: "starts es0 = []"
    using beforeAudio_frame(4) [of m s] es0 by (simp add: starts_append)
  have ns: "nextStartTimeRef (beforeAudio m s) = nextStartTimeRef s"
    by (rule beforeAudio_frame(1))
  obtain es1 where es1: "effects ?a = effects (beforeAudio m s) @ es1"
    and alt: "(starts es1 = [] \<and>
         (nextStartTimeRef ?a = nextStartTimeRef s \<or> nextStartTimeRef ?a = max (nextStartTimeRef s) now)) \<or>
      (\<exists>b d. decodeAudioData e b = Some d \<and> starts es1 = [(max (nextStartTimeRef s) now, d)]
         \<and> nextStartTimeRef ?a = addDouble (max (nextStartTimeRef s) now) d)"
    using handleAudio_schedule [of e now m "beforeAudio m s"] unfolding ns by blast
  have om: "onmessage e now m s = ?a"
    using assms by (rule onmessage_not_interrupted)
  have eff: "effects (onmessage e now m s) = effects s @ (es0 @ es1)"
    using es0 es1 by (simp add: om)
  have st: "starts (es0 @ es1) = starts es1"
    by (simp add: starts_append st0)
  show ?thesis
    using eff alt unfolding om st [symmetric] by blast
qed

lemma run_Cons: "run e (ev # evs) s = run e evs (step e s ev)"
  by (simp add: run_def)

lemma newEffects_append: "effects s' = effects s @ es \<Longrightarrow> newEffects s s' = es"
  by (simp add: newEffects_def)

subsection \<open>Interruption\<close>

lemma handleAudio_Normal_iff:
  "fst (handleAudio e now m s) = Normal \<longleftrightarrow> audioBlockCompletes e m s"
  by (auto simp add: handleAudio_def audioBlockCompletes_def Let_def split: option.split)

lemma handleAudio_sources:
  "set (audioSourcesRef s) \<subseteq> set (audioSourcesRef (snd (handleAudio e now m s)))"
  by (auto simp add: handleAudio_def emit_def Let_def split: option.split)

lemma handleAudio_prefix: "\<exists>es. effects (snd (handleAudio e now m s)) = effects s @ es"
  using handleAudio_schedule [of e now m s] by blast

lemma interrupted_flush:
  assumes "interrupted m" and "audioBlockCompletes e m s"
  shows "audioSourcesRef (onmessage e now m s) = []
       \<and> nextStartTimeRef (onmessage e now m s) = 0
       \<and> (\<forall>n \<in> set (audioSourcesRef s). SourceStop n \<in> set (newEffects s (onmessage e now m s)))"
proof -
  let ?b = "beforeAudio m s"
  let ?a = "snd (handleAudio e now m ?b)"
  have c: "fst (handleAudio e now m ?b) = Normal"
    using assms(2)
    by (simp add: handleAudio_Normal_iff audioBlockCompletes_def beforeAudio_frame split: option.splits)
  have om: "onmessage e now m s = (stopSources (audioSourcesRef ?a) ?a)\<lparr>audioSourcesRef := [], nextStartTimeRef := 0\<rparr>"
    using c assms(1) by (simp add: onmessage_alt beforeAudio_def handleInterrupted_def Let_def)
  obtain es0 where es0: "effects ?b = effects s @ es0"
    using beforeAudio_frame(5) by blast
  obtain es1 where es1: "effects ?a = effects ?b @ es1"
    using handleAudio_prefix by blast
  have eff: "effects (onmessage e now m s) = effects s @ (es0 @ es1 @ map SourceStop (audioSourcesRef ?a))"
    by (simp add: om stopSources_eq es0 es1)
  have sub: "set (audioSourcesRef s) \<subseteq> set (audioSourcesRef ?a)"
    using handleAudio_sources [of ?b e now m] by (simp add: beforeAudio_frame)
  have "\<forall>n \<in> set (audioSourcesRef s). SourceStop n \<in> set (newEffects s (onmessage e now m s))"
    using sub by (auto simp add: newEffects_append [OF eff])
  then show ?thesis by (simp add: om)
qed

text \<open>
  C5 says that after an interrupted message every active unit is stopped, the active set is
  empty and \<open>nextStart\<close> is zero. The interruption block is the last one of \<open>onmessage\<close>,
  and the audio block before it leaves the handler when the output context is \<open>null\<close>
  (the \<open>return\<close> of line 298) or when decoding throws. Two messages that carry a payload
  and the interruption flag:
  \<^item> after the user stopped the conversation (the output context is gone), the message
    leaves \<open>nextStart\<close> at 5;
  \<^item> in an open session with unit 0 playing, a payload that does not decode leaves unit 0
    in the active set, not stopped, and \<open>nextStart\<close> at 5.
\<close>

theorem interrupted_skipped:
  "interrupted ((audioMessage ''BB'')\<lparr>interrupted := True\<rparr>)
   \<and> nextStartTimeRef (onmessage demoEnv 2 ((audioMessage ''BB'')\<lparr>interrupted := True\<rparr>) stoppedEarly) = 5
   \<and> audioSourcesRef playingOne = [0]
   \<and> audioSourcesRef (onmessage strictEnv 2 ((audioMessage ''!'')\<lparr>interrupted := True\<rparr>) playingOne) = [0]
   \<and> nextStartTimeRef (onmessage strictEnv 2 ((audioMessage ''!'')\<lparr>interrupted := True\<rparr>) playingOne) = 5
   \<and> SourceStop 0 \<notin> set (effects (onmessage strictEnv 2 ((audioMessage ''!'')\<lparr>interrupted := True\<rparr>) playingOne))"
  by (simp add: stoppedEarly_def playingOne_def example_defs handler_defs)

subsection \<open>Teardown\<close>

lemma liveContext_simps [simp]:
  "liveContext None = False" "liveContext (Some Running) = True" "liveContext (Some Closed) = False"
  by (simp_all add: liveContext_def)

lemma closeSession_eq:
  "closeSession s = s\<lparr>sessionPromiseRef := False,
     effects := effects s @ (if sessionPromiseRef s then [SessionClose] else [])\<rparr>"
  by (simp add: closeSession_def emit_def)

lemma disconnectCapture_eq:
  "disconnectCapture s = s\<lparr>effects := effects s @
     (if scriptProcessorRef s \<and> mediaStreamSourceRef s then [DisconnectCaptureNodes] else [])\<rparr>"
  by (simp add: disconnectCapture_def emit_def)

lemma stopMediaStream_eq:
  "stopMediaStream s = s\<lparr>mediaStreamRef := False,
     effects := effects s @ (if mediaStreamRef s then [StopTracks] else [])\<rparr>"
  by (simp add: stopMediaStream_def emit_def)

lemma closeInputContext_eq:
  "closeInputContext s = s\<lparr>inputAudioContextRef :=
       (if liveContext (inputAudioContextRef s) then None else inputAudioContextRef s),
     effects := effects s @
       (if liveContext (inputAudioContextRef s) then [CloseAudioContext InputContext] else [])\<rparr>"
  by (simp add: closeInputContext_def emit_def)

lemma closeOutputContext_eq:
  "closeOutputContext s = s\<lparr>outputAudioContextRef :=
       (if liveContext (outputAudioContextRef s) then None else outputAudioContextRef s),
     audioSourcesRef := (if liveContext (outputAudioContextRef s) then [] else audioSourcesRef s),
     effects := effects s @
       (if liveContext (outputAudioContextRef s)
        then map SourceStop (audioSourcesRef s) @ [CloseAudioContext OutputContext] else [])\<rparr>"
  by (simp add: closeOutputContext_def emit_def stopSources_eq)

lemma closeSfxContext_eq:
  "closeSfxContext s = s\<lparr>sfxAudioContextRef :=
       (if liveContext (sfxAudioContextRef s) then None else sfxAudioContextRef s),
     effects := effects s @
       (if liveContext (sfxAudioContextRef s) then [CloseAudioContext SfxContext] else [])\<rparr>"
  by (simp add: closeSfxContext_def emit_def)


text \<open>\<open>stopAudioProcessing\<close> in one step.\<close>

lemma stopAudioProcessing_False:
  "stopAudioProcessing False s =
     s\<lparr>sessionPromiseRef := False,
       mediaStreamRef := False,
       inputAudioContextRef :=
         (if liveContext (inputAudioContextRef s) then None else inputAudioContextRef s),
       outputAudioContextRef :=
         (if liveContext (outputAudioContextRef s) then None else outputAudioContextRef s),
       audioSourcesRef := (if liveContext (outputAudioContextRef s) then [] else audioSourcesRef s),
       sfxAudioContextRef :=
         (if liveContext (sfxAudioContextRef s) then None else sfxAudioContextRef s),
       effects := effects s @ teardownEffects s\<rparr>"
proof -
  let ?A = "if sessionPromiseRef s then [SessionClose] else []"
  let ?B = "if scriptProcessorRef s \<and> mediaStreamSourceRef s then [DisconnectCaptureNodes] else []"
  let ?C = "if mediaStreamRef s then [StopTracks] else []"
  let ?D = "if liveContext (inputAudioContextRef s) then [CloseAudioContext InputContext] else []"
  let ?E = "if liveContext (outputAudioContextRef s)
            then map SourceStop (audioSourcesRef s) @ [CloseAudioContext OutputContext] else []"
  let ?F = "if liveContext (sfxAudioContextRef s) then [CloseAudioContext SfxContext] else []"
  let ?i = "if liveContext (inputAudioContextRef s) then None else inputAudioContextRef s"
  let ?out = "if liveContext (outputAudioContextRef s) then None else outputAudioContextRef s"
  let ?src = "if liveContext (outputAudioContextRef s) then [] else audioSourcesRef s"
  let ?sfx = "if liveContext (sfxAudioContextRef s) then None else sfxAudioContextRef s"
  have 1: "closeSession s = s\<lparr>sessionPromiseRef := False, effects := effects s @ ?A\<rparr>"
    by (rule closeSession_eq)
  have 2: "disconnectCapture (closeSession s) =
      s\<lparr>sessionPromiseRef := False, effects := effects s @ ?A @ ?B\<rparr>"
    unfolding 1 by (simp add: disconnectCapture_eq)
  have 3: "stopMediaStream (disconnectCapture (closeSession s)) =
      s\<lparr>sessionPromiseRef := False, mediaStreamRef := False, effects := effects s @ ?A @ ?B @ ?C\<rparr>"
    unfolding 2 by (simp add: stopMediaStream_eq)
  have 4: "closeInputContext (stopMediaStream (disconnectCapture (closeSession s))) =
      s\<lparr>sessionPromiseRef := False, mediaStreamRef := False, inputAudioContextRef := ?i,
        effects := effects s @ ?A @ ?B @ ?C @ ?D\<rparr>"
    unfolding 3 by (simp add: closeInputContext_eq)
  have 5: "closeOutputContext (closeInputContext (stopMediaStream (disconnectCapture (closeSession s)))) =
      s\<lparr>sessionPromiseRef := False, mediaStreamRef := False, inputAudioContextRef := ?i,
        outputAudioContextRef := ?out, audioSourcesRef := ?src,
        effects := effects s @ ?A @ ?B @ ?C @ ?D @ ?E\<rparr>"
    unfolding 4 by (simp add: closeOutputContext_eq)
  have 6: "closeSfxContext (closeOutputContext (closeInputContext (stopMediaStream
             (disconnectCapture (closeSession s))))) =
      s\<lparr>sessionPromiseRef := False, mediaStreamRef := False, inputAudioContextRef := ?i,
        outputAudioContextRef := ?out, audioSourcesRef := ?src, sfxAudioContextRef := ?sfx,
        effects := effects s @ ?A @ ?B @ ?C @ ?D @ ?E @ ?F\<rparr>"
    unfolding 5 by (simp add: closeSfxContext_eq)
  show ?thesis
    unfolding stopAudioProcessing_def Let_def 6 by (simp add: teardownEffects_def)
qed

lemma stopAudioProcessing_True:
  "stopAudioProcessing True s = resetOnExit (stopAudioProcessing False s)"
  by (simp add: stopAudioProcessing_def Let_def)

lemma stopAudioProcessing_refs:
  "sessionPromiseRef (stopAudioProcessing b s) = False"
  "mediaStreamRef (stopAudioProcessing b s) = False"
  "liveContext (inputAudioContextRef (stopAudioProcessing b s)) = False"
  "liveContext (outputAudioContextRef (stopAudioProcessing b s)) = False"
  "liveContext (sfxAudioContextRef (stopAudioProcessing b s)) = False"
  "outputAudioContextRef (stopAudioProcessing b s) =
     (if liveContext (outputAudioContextRef s) then None else outputAudioContextRef s)"
  "audioSourcesRef (stopAudioProcessing b s) =
     (if liveContext (outputAudioContextRef s) then [] else audioSourcesRef s)"
  by (cases b; simp add: stopAudioProcessing_True stopAudioProcessing_False resetOnExit_def)+

lemma stopAudioProcessing_frame:
  "gameState (stopAudioProcessing b s) = gameState s"
  "gameMode (stopAudioProcessing b s) = gameMode s"
  "userName (stopAudioProcessing b s) = userName s"
  "userAge (stopAudioProcessing b s) = userAge s"
  "nextStartTimeRef (stopAudioProcessing b s) = nextStartTimeRef s"
  by (cases b; simp add: stopAudioProcessing_True stopAudioProcessing_False resetOnExit_def)+

lemma stopAudioProcessing_text:
  "jerryReaction (stopAudioProcessing b s) = (if b then JerryReaction_IDLE else jerryReaction s)"
  "userTranscript (stopAudioProcessing b s) = (if b then [] else userTranscript s)"
  "jerryTranscript (stopAudioProcessing b s) = (if b then [] else jerryTranscript s)"
  "currentInputTranscriptionRef (stopAudioProcessing b s) =
     (if b then [] else currentInputTranscriptionRef s)"
  "currentOutputTranscriptionRef (stopAudioProcessing b s) =
     (if b then [] else currentOutputTranscriptionRef s)"
  "error (stopAudioProcessing b s) = (if b then None else error s)"
  by (cases b; simp add: stopAudioProcessing_True stopAudioProcessing_False resetOnExit_def)+

lemma stopAudioProcessing_effects:
  "effects (stopAudioProcessing b s) = effects s @ teardownEffects s"
  by (cases b; simp add: stopAudioProcessing_True stopAudioProcessing_False resetOnExit_def)

lemma teardownEffects_cong:
  "teardownEffects (s\<lparr>effects := x\<rparr>) = teardownEffects s"
  "teardownEffects (s\<lparr>error := y\<rparr>) = teardownEffects s"
  "teardownEffects (s\<lparr>gameState := z\<rparr>) = teardownEffects s"
  "teardownEffects (s\<lparr>jerryReaction := r\<rparr>) = teardownEffects s"
  "teardownEffects (s\<lparr>userName := n\<rparr>) = teardownEffects s"
  "teardownEffects (s\<lparr>userAge := a\<rparr>) = teardownEffects s"
  "teardownEffects (s\<lparr>gameMode := g\<rparr>) = teardownEffects s"
  by (simp_all add: teardownEffects_def)

lemma teardownEffects_no_acquisition: "filter isAcquisition (teardownEffects s) = []"
proof -
  have "filter isAcquisition (map SourceStop ns) = []" for ns
    by (induction ns) simp_all
  then show ?thesis by (simp add: teardownEffects_def)
qed

lemma teardownEffects_members:
  "sessionPromiseRef s \<Longrightarrow> SessionClose \<in> set (teardownEffects s)"
  "mediaStreamRef s \<Longrightarrow> StopTracks \<in> set (teardownEffects s)"
  "scriptProcessorRef s \<Longrightarrow> mediaStreamSourceRef s \<Longrightarrow> DisconnectCaptureNodes \<in> set (teardownEffects s)"
  "liveContext (outputAudioContextRef s) \<Longrightarrow> n \<in> set (audioSourcesRef s) \<Longrightarrow> SourceStop n \<in> set (teardownEffects s)"
  by (simp_all add: teardownEffects_def)

lemma toggleCatch_fields:
  "gameState (toggleCatch msg s) = IDLE"
  "error (toggleCatch msg s) = Some msg"
  "sessionPromiseRef (toggleCatch msg s) = False"
  "mediaStreamRef (toggleCatch msg s) = False"
  "liveContext (inputAudioContextRef (toggleCatch msg s)) = False"
  "liveContext (outputAudioContextRef (toggleCatch msg s)) = False"
  "liveContext (sfxAudioContextRef (toggleCatch msg s)) = False"
  "outputAudioContextRef (toggleCatch msg s) =
     (if liveContext (outputAudioContextRef s) then None else outputAudioContextRef s)"
  "audioSourcesRef (toggleCatch msg s) =
     (if liveContext (outputAudioContextRef s) then [] else audioSourcesRef s)"
  "effects (toggleCatch msg s) = effects s @ ConsoleError # teardownEffects s"
  by (simp_all add: toggleCatch_def emit_def stopAudioProcessing_refs stopAudioProcessing_frame
        stopAudioProcessing_text stopAudioProcessing_effects teardownEffects_cong)

subsection \<open>Start without the key\<close>

text \<open>A start of the session without the key ends in the \<open>catch\<close> block.\<close>

lemma toggle_start_without_key:
  assumes "apiKeyMissing e" and "isAutoStart \<or> gameState s = IDLE"
  shows "handleToggleConversation e isAutoStart s =
           toggleCatch ''API_KEY environment variable not set.'' (s\<lparr>error := None, gameState := CONNECTING\<rparr>)"
  using assms by (auto simp add: handleToggleConversation_def Let_def)

lemma startGame_without_key_eq:
  assumes "apiKeyMissing e" and "trim name \<noteq> []" and "age \<noteq> []"
  shows "handleStartGame e name age mode s =
     toggleCatch ''API_KEY environment variable not set.''
       (s\<lparr>userName := name, userAge := age, gameMode := mode,
          effects := effects s @ [ConsoleError], error := None, gameState := CONNECTING\<rparr>)"
  using assms
  by (simp add: handleStartGame_def playGreeting_def greetingCatch_def emit_def
        toggle_start_without_key)

text \<open>
  The claim C2 ends: with the credential absent, starting the conversation leaves the state
  at PreGame. \<open>playGreeting\<close> catches its own error and calls
  \<open>handleToggleConversation(true)\<close>, whose \<open>catch\<close> block sets the state to
  \<open>IDLE\<close>: from the initial state, a start with valid fields ends in \<open>IDLE\<close>.
\<close>

theorem missing_key_counterexample:
  "apiKeyMissing noKeyEnv
   \<and> gameState initApp = PRE_GAME
   \<and> gameState (handleStartGame noKeyEnv ''Alex'' ''10-18'' AI initApp) = IDLE"
  by (simp add: example_defs handler_defs)

text \<open>
  C2, amended. With the key absent (undefined or empty), a start with a non-blank name and
  an age, from any state, ends with the error message
  \<open>API_KEY environment variable not set.\<close> in state \<open>IDLE\<close>; the handler creates
  no audio context, requests neither the greeting nor the microphone nor a session, and
  ends holding no session, no media stream and no input or output context. The same holds
  for \<open>handleToggleConversation\<close> whenever it takes its starting branch.
\<close>

theorem missing_key_start:
  assumes "apiKeyMissing e"
  shows "(trim name \<noteq> [] \<and> age \<noteq> [] \<longrightarrow>
           (let s' = handleStartGame e name age mode s in
              error s' = Some ''API_KEY environment variable not set.''
            \<and> gameState s' = IDLE
            \<and> filter isAcquisition (newEffects s s') = []
            \<and> \<not> sessionPromiseRef s' \<and> \<not> mediaStreamRef s'
            \<and> \<not> liveContext (inputAudioContextRef s') \<and> \<not> liveContext (outputAudioContextRef s')))
       \<and> (isAutoStart \<or> gameState s = IDLE \<longrightarrow>
           (let s' = handleToggleConversation e isAutoStart s in
              error s' = Some ''API_KEY environment variable not set.''
            \<and> gameState s' = IDLE
            \<and> filter isAcquisition (newEffects s s') = []
            \<and> \<not> sessionPromiseRef s' \<and> \<not> mediaStreamRef s'
            \<and> \<not> liveContext (inputAudioContextRef s') \<and> \<not> liveContext (outputAudioContextRef s')))"
proof (intro conjI impI)
  assume a: "trim name \<noteq> [] \<and> age \<noteq> []"
  let ?x = "s\<lparr>userName := name, userAge := age, gameMode := mode,
          effects := effects s @ [ConsoleError], error := None, gameState := CONNECTING\<rparr>"
  have eq: "handleStartGame e name age mode s = toggleCatch ''API_KEY environment variable not set.'' ?x"
    using assms a by (simp add: startGame_without_key_eq)
  have "effects (handleStartGame e name age mode s) = effects s @ ([ConsoleError, ConsoleError] @ teardownEffects ?x)"
    by (simp add: eq toggleCatch_fields)
  then have "newEffects s (handleStartGame e name age mode s) = [ConsoleError, ConsoleError] @ teardownEffects ?x"
    by (rule newEffects_append)
  then have "filter isAcquisition (newEffects s (handleStartGame e name age mode s)) = []"
    by (simp add: teardownEffects_no_acquisition)
  then show "let s' = handleStartGame e name age mode s in
              error s' = Some ''API_KEY environment variable not set.''
            \<and> gameState s' = IDLE
            \<and> filter isAcquisition (newEffects s s') = []
            \<and> \<not> sessionPromiseRef s' \<and> \<not> mediaStreamRef s'
            \<and> \<not> liveContext (inputAudioContextRef s') \<and> \<not> liveContext (outputAudioContextRef s')"
    by (simp add: Let_def) (simp add: eq toggleCatch_fields)
next
  assume a: "isAutoStart \<or> gameState s = IDLE"
  let ?x = "s\<lparr>error := None, gameState := CONNECTING\<rparr>"
  have eq: "handleToggleConversation e isAutoStart s = toggleCatch ''API_KEY environment variable not set.'' ?x"
    using assms a by (rule toggle_start_without_key)
  have "effects (handleToggleConversation e isAutoStart s) = effects s @ ([ConsoleError] @ teardownEffects ?x)"
    by (simp add: eq toggleCatch_fields)
  then have "newEffects s (handleToggleConversation e isAutoStart s) = [ConsoleError] @ teardownEffects ?x"
    by (rule newEffects_append)
  then have "filter isAcquisition (newEffects s (handleToggleConversation e isAutoStart s)) = []"
    by (simp add: teardownEffects_no_acquisition)
  then show "let s' = handleToggleConversation e isAutoStart s in
              error s' = Some ''API_KEY environment variable not set.''
            \<and> gameState s' = IDLE
            \<and> filter isAcquisition (newEffects s s') = []
            \<and> \<not> sessionPromiseRef s' \<and> \<not> mediaStreamRef s'
            \<and> \<not> liveContext (inputAudioContextRef s') \<and> \<not> liveContext (outputAudioContextRef s')"
    by (simp add: Let_def) (simp add: eq toggleCatch_fields)
qed

theorem missing_key_start_witness:
  "apiKeyMissing noKeyEnv \<and> trim ''Alex'' \<noteq> [] \<and> ''10-18'' \<noteq> []
   \<and> error (handleStartGame noKeyEnv ''Alex'' ''10-18'' AI initApp)
        = Some ''API_KEY environment variable not set.''
   \<and> gameState (handleStartGame noKeyEnv ''Alex'' ''10-18'' AI initApp) = IDLE
   \<and> newEffects initApp (handleStartGame noKeyEnv ''Alex'' ''10-18'' AI initApp)
        = [ConsoleError, ConsoleError]
   \<and> gameState (handleToggleConversation noKeyEnv True initApp) = IDLE"
  using missing_key_start [of noKeyEnv "''Alex''" "''10-18''" AI initApp True]
  by (simp add: example_defs handler_defs)

subsection \<open>Sources and their context\<close>

lemma sourcesHaveContext_init: "sourcesHaveContext initApp"
  by (simp add: sourcesHaveContext_def initApp_def)

lemma sourcesHaveContext_stop:
  "sourcesHaveContext s \<Longrightarrow> sourcesHaveContext (stopAudioProcessing b s)"
  by (auto simp add: sourcesHaveContext_def stopAudioProcessing_refs liveContext_def split: option.splits)

lemma sourcesHaveContext_cong:
  "outputAudioContextRef s' = outputAudioContextRef s \<Longrightarrow> audioSourcesRef s' = audioSourcesRef s
   \<Longrightarrow> sourcesHaveContext s' = sourcesHaveContext s"
  by (simp add: sourcesHaveContext_def)

lemma sourcesHaveContext_toggleCatch:
  "sourcesHaveContext s \<Longrightarrow> sourcesHaveContext (toggleCatch msg s)"
  unfolding toggleCatch_def
  by (rule sourcesHaveContext_stop) (simp add: sourcesHaveContext_def emit_def)

lemma sourcesHaveContext_toggle:
  assumes "sourcesHaveContext s"
  shows "sourcesHaveContext (handleToggleConversation e a s)"
proof (cases "\<not> a \<and> gameState s \<noteq> IDLE")
  case True
  have "sourcesHaveContext (stopAudioProcessing False (s\<lparr>gameState := IDLE, jerryReaction := JerryReaction_IDLE\<rparr>))"
    by (rule sourcesHaveContext_stop) (use assms in \<open>simp add: sourcesHaveContext_def\<close>)
  then show ?thesis using True
    by (simp add: handleToggleConversation_def sourcesHaveContext_def)
next
  case False
  show ?thesis
  proof (cases "apiKeyMissing e")
    case True
    have "sourcesHaveContext (toggleCatch ''API_KEY environment variable not set.'' (s\<lparr>error := None, gameState := CONNECTING\<rparr>))"
      by (rule sourcesHaveContext_toggleCatch) (use assms in \<open>simp add: sourcesHaveContext_def\<close>)
    then show ?thesis using True False toggle_start_without_key [of e a s]
      by auto
  next
    case nk: False
    then show ?thesis using False assms
      by (auto simp add: handleToggleConversation_def Let_def sourcesHaveContext_def emit_def)
  qed
qed

lemma sourcesHaveContext_greetingCatch:
  "sourcesHaveContext s \<Longrightarrow> sourcesHaveContext (greetingCatch e s)"
  unfolding greetingCatch_def
  by (rule sourcesHaveContext_toggle) (simp add: sourcesHaveContext_def emit_def)

lemma sourcesHaveContext_onmessage:
  assumes "sourcesHaveContext s"
  shows "sourcesHaveContext (onmessage e now m s)"
proof -
  let ?b = "beforeAudio m s"
  have b: "sourcesHaveContext ?b"
    using assms by (simp add: sourcesHaveContext_def beforeAudio_frame)
  have a: "sourcesHaveContext (snd (handleAudio e now m ?b))"
    using b by (auto simp add: sourcesHaveContext_def handleAudio_def emit_def Let_def split: option.splits)
  have "sourcesHaveContext (handleInterrupted m (snd (handleAudio e now m ?b)))"
    using a by (simp add: sourcesHaveContext_def handleInterrupted_def stopSources_eq)
  then show ?thesis using a
    by (simp add: onmessage_alt Let_def beforeAudio_def)
qed

lemma sourcesHaveContext_step:
  assumes "sourcesHaveContext s"
  shows "sourcesHaveContext (step e s ev)"
proof (cases ev)
  case (StartGame name age mode)
  show ?thesis
  proof (cases "trim name = [] \<or> age = []")
    case True
    then show ?thesis using assms StartGame
      by (simp add: handleStartGame_def sourcesHaveContext_def)
  next
    case False
    let ?x = "s\<lparr>userName := name, userAge := age, gameMode := mode, error := None\<rparr>"
    have x: "sourcesHaveContext ?x" using assms by (simp add: sourcesHaveContext_def)
    show ?thesis
    proof (cases "apiKeyMissing e")
      case True
      then show ?thesis using False StartGame sourcesHaveContext_greetingCatch [OF x, of e]
        by (simp add: handleStartGame_def playGreeting_def)
    next
      case nk: False
      then show ?thesis using False StartGame x
        by (simp add: handleStartGame_def playGreeting_def sourcesHaveContext_def emit_def)
    qed
  qed
next
  case ExitGame
  then show ?thesis using sourcesHaveContext_stop [OF assms, of True]
    by (simp add: handleExitGame_def sourcesHaveContext_def)
next
  case ToggleConversation
  then show ?thesis using assms by (simp add: sourcesHaveContext_toggle)
next
  case (GreetingResponse a)
  then show ?thesis using assms
    by (auto simp add: greetingResponse_def sourcesHaveContext_toggle sourcesHaveContext_greetingCatch
          split: option.splits)
       (simp add: sourcesHaveContext_def emit_def)
next
  case GreetingFailed
  then show ?thesis using assms by (simp add: sourcesHaveContext_greetingCatch)
next
  case GreetingEnded
  then show ?thesis using assms by (simp add: sourcesHaveContext_toggle)
next
  case MediaGranted
  then show ?thesis using assms by (simp add: mediaGranted_def sourcesHaveContext_def emit_def)
next
  case (MediaDenied err)
  then show ?thesis using assms by (simp add: mediaDenied_def sourcesHaveContext_toggleCatch)
next
  case OnOpen
  then show ?thesis using assms by (simp add: onopen_def sourcesHaveContext_def emit_def Let_def)
next
  case OnAudioProcess
  then show ?thesis using assms by (simp add: onaudioprocess_def sourcesHaveContext_def emit_def)
next
  case (OnMessage m now)
  then show ?thesis using assms by (simp add: sourcesHaveContext_onmessage)
next
  case OnError
  have "sourcesHaveContext (onerror s)"
    unfolding onerror_def
    by (rule sourcesHaveContext_stop) (use assms in \<open>simp add: sourcesHaveContext_def emit_def\<close>)
  then show ?thesis using OnError by simp
next
  case OnClose
  have "sourcesHaveContext (onclose s)"
    unfolding onclose_def
    by (rule sourcesHaveContext_stop) (use assms in \<open>simp add: sourcesHaveContext_def\<close>)
  then show ?thesis using OnClose by simp
next
  case (SourceEnded n)
  then show ?thesis using assms
    by (auto simp add: onended_def sourcesHaveContext_def Let_def)
next
  case ReactionEffect
  then show ?thesis using assms
    by (simp add: reactionEffect_def sourcesHaveContext_def emit_def Let_def)
qed

lemma sourcesHaveContext_run:
  "sourcesHaveContext s \<Longrightarrow> sourcesHaveContext (run e evs s)"
  by (induction evs arbitrary: s) (simp_all add: run_def sourcesHaveContext_step)

lemma reachable_sources:
  "audioSourcesRef (run e evs initApp) \<noteq> [] \<Longrightarrow> liveContext (outputAudioContextRef (run e evs initApp))"
  using sourcesHaveContext_run [OF sourcesHaveContext_init, of e evs]
  by (auto simp add: sourcesHaveContext_def liveContext_def split: option.splits)

text \<open>What \<open>stopAudioProcessing\<close> achieves from a state in which sources have their context.\<close>

lemma teardown_released:
  assumes "sourcesHaveContext s"
  shows "\<not> sessionPromiseRef (stopAudioProcessing b s)"
    and "\<not> mediaStreamRef (stopAudioProcessing b s)"
    and "\<not> liveContext (inputAudioContextRef (stopAudioProcessing b s))"
    and "\<not> liveContext (outputAudioContextRef (stopAudioProcessing b s))"
    and "audioSourcesRef (stopAudioProcessing b s) = []"
    and "\<forall>n \<in> set (audioSourcesRef s). SourceStop n \<in> set (teardownEffects s)"
    and "sessionPromiseRef s \<longrightarrow> SessionClose \<in> set (teardownEffects s)"
    and "mediaStreamRef s \<longrightarrow> StopTracks \<in> set (teardownEffects s)"
    and "scriptProcessorRef s \<and> mediaStreamSourceRef s \<longrightarrow> DisconnectCaptureNodes \<in> set (teardownEffects s)"
proof -
  have live: "audioSourcesRef s \<noteq> [] \<Longrightarrow> liveContext (outputAudioContextRef s)"
    using assms by (auto simp add: sourcesHaveContext_def liveContext_def split: option.splits)
  show "audioSourcesRef (stopAudioProcessing b s) = []"
    using live by (auto simp add: stopAudioProcessing_refs)
  show "\<forall>n \<in> set (audioSourcesRef s). SourceStop n \<in> set (teardownEffects s)"
  proof
    fix n assume n: "n \<in> set (audioSourcesRef s)"
    then have "audioSourcesRef s \<noteq> []" by auto
    then show "SourceStop n \<in> set (teardownEffects s)"
      using n live by (simp add: teardownEffects_members)
  qed
qed (simp_all add: stopAudioProcessing_refs teardownEffects_members)

lemma sourcesHaveContext_reachable: "sourcesHaveContext (run e evs initApp)"
  by (rule sourcesHaveContext_run [OF sourcesHaveContext_init])

lemma playingOne_fields:
  "gameState playingOne = TALKING"
  "audioSourcesRef playingOne = [0]"
  "sessionPromiseRef playingOne"
  "mediaStreamRef playingOne"
  "userName playingOne = ''Alex''"
  by (simp_all add: playingOne_def example_defs handler_defs)

subsection \<open>Leaving the game\<close>

text \<open>
  The claim C8 says that the exit clears the identity (name, age) and the mode.
  \<open>handleExitGame\<close> calls \<open>stopAudioProcessing(true)\<close> and sets the state; no
  handler writes \<open>userName\<close>, \<open>userAge\<close> or \<open>gameMode\<close> except
  \<open>handleStartGame\<close>. After a game started as Alex, 10-18, in mimic mode, the exit
  leaves all three as they were.
\<close>

theorem exit_keeps_identity_counterexample:
  "gameState (run demoEnv mimicExit initApp) = PRE_GAME
   \<and> userName (run demoEnv mimicExit initApp) = ''Alex''
   \<and> userAge (run demoEnv mimicExit initApp) = ''10-18''
   \<and> gameMode (run demoEnv mimicExit initApp) = MIMIC
   \<and> gameMode initApp = AI"
  by (simp add: mimicExit_def example_defs handler_defs)

text \<open>
  C8, amended. From every state that the events can lead to, the exit stops the capture
  (nodes disconnected, tracks stopped, input context closed), stops every active playback
  unit and empties the active set, asks the session to close and drops it, resets the
  reaction to idle, empties both display transcripts and both pending buffers, clears the
  error and sets the state to \<open>PRE_GAME\<close>. Name, age and mode keep their values.
\<close>

theorem exit_teardown:
  "let s = run e evs initApp; s' = handleExitGame s in
     gameState s' = PRE_GAME
   \<and> \<not> sessionPromiseRef s' \<and> \<not> mediaStreamRef s'
   \<and> \<not> liveContext (inputAudioContextRef s') \<and> \<not> liveContext (outputAudioContextRef s')
   \<and> audioSourcesRef s' = []
   \<and> (\<forall>n \<in> set (audioSourcesRef s). SourceStop n \<in> set (newEffects s s'))
   \<and> (sessionPromiseRef s \<longrightarrow> SessionClose \<in> set (newEffects s s'))
   \<and> (mediaStreamRef s \<longrightarrow> StopTracks \<in> set (newEffects s s'))
   \<and> (scriptProcessorRef s \<and> mediaStreamSourceRef s \<longrightarrow>
        DisconnectCaptureNodes \<in> set (newEffects s s'))
   \<and> jerryReaction s' = JerryReaction_IDLE
   \<and> userTranscript s' = [] \<and> jerryTranscript s' = []
   \<and> currentInputTranscriptionRef s' = [] \<and> currentOutputTranscriptionRef s' = []
   \<and> error s' = None
   \<and> userName s' = userName s \<and> userAge s' = userAge s \<and> gameMode s' = gameMode s"
proof -
  let ?s = "run e evs initApp"
  have inv: "sourcesHaveContext ?s" by (rule sourcesHaveContext_reachable)
  have ne: "newEffects ?s (handleExitGame ?s) = teardownEffects ?s"
    by (rule newEffects_append) (simp add: handleExitGame_def stopAudioProcessing_effects)
  show ?thesis
    unfolding Let_def ne
    using teardown_released [OF inv]
    by (simp add: handleExitGame_def stopAudioProcessing_text stopAudioProcessing_frame)
qed

theorem exit_teardown_witness:
  "audioSourcesRef playingOne = [0]
   \<and> sessionPromiseRef playingOne \<and> mediaStreamRef playingOne
   \<and> gameState (handleExitGame playingOne) = PRE_GAME
   \<and> audioSourcesRef (handleExitGame playingOne) = []
   \<and> SourceStop 0 \<in> set (newEffects playingOne (handleExitGame playingOne))
   \<and> SessionClose \<in> set (newEffects playingOne (handleExitGame playingOne))
   \<and> StopTracks \<in> set (newEffects playingOne (handleExitGame playingOne))
   \<and> jerryReaction (handleExitGame playingOne) = JerryReaction_IDLE
   \<and> userName (handleExitGame playingOne) = ''Alex''"
proof -
  have pre: "audioSourcesRef playingOne = [0]" "sessionPromiseRef playingOne"
    "mediaStreamRef playingOne" "userName playingOne = ''Alex''"
    by (simp_all add: playingOne_def example_defs handler_defs)
  show ?thesis
    using exit_teardown [of strictEnv "openSession @ [OnMessage (audioMessage ''AAAA'') 1]",
        folded playingOne_def]
    by (simp add: Let_def pre)
qed

subsection \<open>Transitions to Idle\<close>

lemma toggle_stop_eq:
  "gameState s \<noteq> IDLE \<Longrightarrow>
   handleToggleConversation e False s =
     (stopAudioProcessing False (s\<lparr>gameState := IDLE, jerryReaction := JerryReaction_IDLE\<rparr>))
       \<lparr>userTranscript := [], jerryTranscript := [],
        currentInputTranscriptionRef := [], currentOutputTranscriptionRef := []\<rparr>"
  by (simp add: handleToggleConversation_def)

lemma sourcesHaveContext_upd:
  "sourcesHaveContext (s\<lparr>gameState := g\<rparr>) = sourcesHaveContext s"
  "sourcesHaveContext (s\<lparr>jerryReaction := r\<rparr>) = sourcesHaveContext s"
  "sourcesHaveContext (s\<lparr>error := x\<rparr>) = sourcesHaveContext s"
  "sourcesHaveContext (s\<lparr>effects := es\<rparr>) = sourcesHaveContext s"
  by (simp_all add: sourcesHaveContext_def)

lemma stop_releases:
  assumes "sourcesHaveContext s" and "gameState s \<noteq> IDLE"
  shows "let s' = handleToggleConversation e False s in
     gameState s' = IDLE
   \<and> \<not> sessionPromiseRef s' \<and> \<not> mediaStreamRef s'
   \<and> \<not> liveContext (inputAudioContextRef s') \<and> \<not> liveContext (outputAudioContextRef s')
   \<and> audioSourcesRef s' = []
   \<and> (\<forall>n \<in> set (audioSourcesRef s). SourceStop n \<in> set (newEffects s s'))
   \<and> (sessionPromiseRef s \<longrightarrow> SessionClose \<in> set (newEffects s s'))
   \<and> (mediaStreamRef s \<longrightarrow> StopTracks \<in> set (newEffects s s'))
   \<and> (scriptProcessorRef s \<and> mediaStreamSourceRef s \<longrightarrow>
        DisconnectCaptureNodes \<in> set (newEffects s s'))
   \<and> jerryReaction s' = JerryReaction_IDLE
   \<and> userTranscript s' = [] \<and> jerryTranscript s' = []
   \<and> currentInputTranscriptionRef s' = [] \<and> currentOutputTranscriptionRef s' = []"
proof -
  let ?x = "s\<lparr>gameState := IDLE, jerryReaction := JerryReaction_IDLE\<rparr>"
  have inv: "sourcesHaveContext ?x" using assms(1) by (simp add: sourcesHaveContext_upd)
  have ne: "newEffects s (handleToggleConversation e False s) = teardownEffects s"
    by (rule newEffects_append)
       (simp add: toggle_stop_eq [OF assms(2)] stopAudioProcessing_effects teardownEffects_cong)
  show ?thesis
    unfolding Let_def ne
    using teardown_released [OF inv]
    by (simp add: toggle_stop_eq [OF assms(2)] stopAudioProcessing_text stopAudioProcessing_frame
          teardownEffects_cong)
qed

lemma onerror_releases:
  assumes "sourcesHaveContext s"
  shows "let s' = onerror s in
     gameState s' = IDLE
   \<and> \<not> sessionPromiseRef s' \<and> \<not> mediaStreamRef s'
   \<and> \<not> liveContext (inputAudioContextRef s') \<and> \<not> liveContext (outputAudioContextRef s')
   \<and> audioSourcesRef s' = []
   \<and> (\<forall>n \<in> set (audioSourcesRef s). SourceStop n \<in> set (newEffects s s'))
   \<and> (sessionPromiseRef s \<longrightarrow> SessionClose \<in> set (newEffects s s'))
   \<and> (mediaStreamRef s \<longrightarrow> StopTracks \<in> set (newEffects s s'))
   \<and> (scriptProcessorRef s \<and> mediaStreamSourceRef s \<longrightarrow>
        DisconnectCaptureNodes \<in> set (newEffects s s'))"
proof -
  let ?x = "(emit ConsoleError s)\<lparr>error := Some ''An error occurred. Please try again.'', gameState := IDLE\<rparr>"
  have inv: "sourcesHaveContext ?x" using assms by (simp add: sourcesHaveContext_upd emit_def)
  have te: "teardownEffects ?x = teardownEffects s"
    by (simp add: emit_def teardownEffects_cong)
  have ne: "newEffects s (onerror s) = ConsoleError # teardownEffects s"
    by (rule newEffects_append) (simp add: onerror_def stopAudioProcessing_effects te, simp add: emit_def)
  show ?thesis
    unfolding Let_def ne
    using teardown_released [OF inv]
    by (simp add: onerror_def stopAudioProcessing_frame te) (simp add: emit_def)
qed

lemma onclose_releases:
  assumes "sourcesHaveContext s"
  shows "let s' = onclose s in
     gameState s' = IDLE
   \<and> \<not> sessionPromiseRef s' \<and> \<not> mediaStreamRef s'
   \<and> \<not> liveContext (inputAudioContextRef s') \<and> \<not> liveContext (outputAudioContextRef s')
   \<and> audioSourcesRef s' = []
   \<and> (\<forall>n \<in> set (audioSourcesRef s). SourceStop n \<in> set (newEffects s s'))
   \<and> (sessionPromiseRef s \<longrightarrow> SessionClose \<in> set (newEffects s s'))
   \<and> (mediaStreamRef s \<longrightarrow> StopTracks \<in> set (newEffects s s'))
   \<and> (scriptProcessorRef s \<and> mediaStreamSourceRef s \<longrightarrow>
        DisconnectCaptureNodes \<in> set (newEffects s s'))"
proof -
  let ?x = "s\<lparr>gameState := IDLE\<rparr>"
  have inv: "sourcesHaveContext ?x" using assms by (simp add: sourcesHaveContext_upd)
  have ne: "newEffects s (onclose s) = teardownEffects s"
    by (rule newEffects_append) (simp add: onclose_def stopAudioProcessing_effects teardownEffects_cong)
  show ?thesis
    unfolding Let_def ne
    using teardown_released [OF inv]
    by (simp add: onclose_def stopAudioProcessing_frame teardownEffects_cong)
qed

text \<open>
  The claim C3 says that every transition to Idle, also on a transport error or close,
  resets the reaction and the transcripts. \<open>onclose\<close> and \<open>onerror\<close> call
  \<open>stopAudioProcessing()\<close> without the flag that guards those resets. When the
  transport closes in an open session in which the character chose the reaction smart and
  said Hi, the state becomes \<open>IDLE\<close> while reaction, display transcript and pending
  buffer stay.
\<close>

theorem close_keeps_reaction_counterexample:
  "gameState chatting = LISTENING
   \<and> gameState (onclose chatting) = IDLE
   \<and> jerryReaction (onclose chatting) = JerryReaction_SMART
   \<and> jerryTranscript (onclose chatting) = ''Hi''
   \<and> currentOutputTranscriptionRef (onclose chatting) = ''Hi''"
  by (simp add: chatting_def smartHi_def example_defs handler_defs)

text \<open>
  C3, amended. From every state other than \<open>IDLE\<close> that the events can lead to, each
  of the user's stop, the transport error and the transport close sets the state to
  \<open>IDLE\<close>, stops the capture (nodes disconnected, tracks stopped, input context
  closed), stops every active playback unit and empties the active set, and asks the
  session to close and drops it. The user's stop also resets the reaction to idle and
  empties both display transcripts and both pending buffers.
\<close>

theorem idle_teardown:
  assumes "gameState (run e evs initApp) \<noteq> IDLE"
  shows "let s = run e evs initApp in
     (\<forall>s' \<in> {handleToggleConversation e False s, onerror s, onclose s}.
          gameState s' = IDLE
        \<and> \<not> sessionPromiseRef s' \<and> \<not> mediaStreamRef s'
        \<and> \<not> liveContext (inputAudioContextRef s') \<and> \<not> liveContext (outputAudioContextRef s')
        \<and> audioSourcesRef s' = []
        \<and> (\<forall>n \<in> set (audioSourcesRef s). SourceStop n \<in> set (newEffects s s'))
        \<and> (sessionPromiseRef s \<longrightarrow> SessionClose \<in> set (newEffects s s'))
        \<and> (mediaStreamRef s \<longrightarrow> StopTracks \<in> set (newEffects s s'))
        \<and> (scriptProcessorRef s \<and> mediaStreamSourceRef s \<longrightarrow>
             DisconnectCaptureNodes \<in> set (newEffects s s')))
   \<and> jerryReaction (handleToggleConversation e False s) = JerryReaction_IDLE
   \<and> userTranscript (handleToggleConversation e False s) = []
   \<and> jerryTranscript (handleToggleConversation e False s) = []
   \<and> currentInputTranscriptionRef (handleToggleConversation e False s) = []
   \<and> currentOutputTranscriptionRef (handleToggleConversation e False s) = []"
proof -
  let ?s = "run e evs initApp"
  have inv: "sourcesHaveContext ?s" by (rule sourcesHaveContext_reachable)
  show ?thesis
    using stop_releases [OF inv assms, of e] onerror_releases [OF inv] onclose_releases [OF inv]
    by (simp add: Let_def)
qed

theorem idle_teardown_witness:
  "gameState playingOne \<noteq> IDLE
   \<and> audioSourcesRef playingOne = [0]
   \<and> sessionPromiseRef playingOne \<and> mediaStreamRef playingOne
   \<and> gameState (onclose playingOne) = IDLE
   \<and> audioSourcesRef (onclose playingOne) = []
   \<and> SourceStop 0 \<in> set (newEffects playingOne (onclose playingOne))
   \<and> SessionClose \<in> set (newEffects playingOne (onerror playingOne))
   \<and> StopTracks \<in> set (newEffects playingOne (handleToggleConversation strictEnv False playingOne))
   \<and> jerryReaction (handleToggleConversation strictEnv False playingOne) = JerryReaction_IDLE"
proof -
  have ni: "gameState (run strictEnv (openSession @ [OnMessage (audioMessage ''AAAA'') 1]) initApp) \<noteq> IDLE"
    using playingOne_fields(1) by (simp add: playingOne_def)
  show ?thesis
    using idle_teardown [OF ni, folded playingOne_def]
    by (simp add: Let_def playingOne_fields)
qed

subsection \<open>How Talking and Idle are entered\<close>
















subsection \<open>The playback schedule\<close>

lemma quiet_refl: "quiet s s"
  by (simp add: quiet_def)

lemma quiet_trans: "quiet s s' \<Longrightarrow> quiet s' s'' \<Longrightarrow> quiet s s''"
  by (auto simp add: quiet_def starts_append)

lemma quiet_same:
  "effects s' = effects s \<Longrightarrow> nextStartTimeRef s' = nextStartTimeRef s \<Longrightarrow> quiet s s'"
  by (simp add: quiet_def)

lemma starts_teardownEffects: "starts (teardownEffects s) = []"
  by (simp add: teardownEffects_def starts_append starts_stops)

lemma quiet_stop: "quiet s (stopAudioProcessing b s)"
  by (simp add: quiet_def stopAudioProcessing_effects stopAudioProcessing_frame
        starts_teardownEffects)

lemma quiet_toggleCatch: "quiet s (toggleCatch msg s)"
proof -
  have "quiet s ((emit ConsoleError s)\<lparr>error := Some msg, gameState := IDLE\<rparr>)"
    by (simp add: quiet_def emit_def)
  then show ?thesis unfolding toggleCatch_def using quiet_stop by (rule quiet_trans)
qed

lemma quiet_toggle: "quiet s (handleToggleConversation e a s)"
proof (cases "\<not> a \<and> gameState s \<noteq> IDLE")
  case True
  let ?x = "s\<lparr>gameState := IDLE, jerryReaction := JerryReaction_IDLE\<rparr>"
  have "quiet s ?x" by (simp add: quiet_def)
  then have "quiet s (stopAudioProcessing False ?x)" using quiet_stop by (rule quiet_trans)
  moreover have "quiet (stopAudioProcessing False ?x) (handleToggleConversation e a s)"
    using True by (simp add: handleToggleConversation_def quiet_def)
  ultimately show ?thesis by (rule quiet_trans)
next
  case False
  then have start: "a \<or> gameState s = IDLE" by auto
  show ?thesis
  proof (cases "apiKeyMissing e")
    case True
    have "quiet s (s\<lparr>error := None, gameState := CONNECTING\<rparr>)" by (simp add: quiet_def)
    then show ?thesis
      unfolding toggle_start_without_key [OF True start] using quiet_toggleCatch
      by (rule quiet_trans)
  next
    case nk: False
    then show ?thesis using False
      by (auto simp add: handleToggleConversation_def Let_def quiet_def emit_def)
  qed
qed

lemma quiet_greetingCatch: "quiet s (greetingCatch e s)"
proof -
  have "quiet s ((emit ConsoleError s)\<lparr>error := Some ''Couldn't say hello! Starting conversation anyway.''\<rparr>)"
    by (simp add: quiet_def emit_def)
  then show ?thesis unfolding greetingCatch_def using quiet_toggle by (rule quiet_trans)
qed

lemma quiet_step:
  assumes "\<And>m now. ev \<noteq> OnMessage m now"
  shows "quiet s (step e s ev)"
proof (cases ev)
  case (StartGame name age mode)
  let ?x = "s\<lparr>userName := name, userAge := age, gameMode := mode, error := None\<rparr>"
  have x: "quiet s ?x" by (simp add: quiet_def)
  have "quiet ?x (playGreeting e name ?x)"
    using quiet_greetingCatch [of ?x e]
    by (cases "apiKeyMissing e") (simp_all add: playGreeting_def quiet_def emit_def)
  with x have "quiet s (playGreeting e name ?x)" by (rule quiet_trans)
  then show ?thesis using StartGame
    by (simp add: handleStartGame_def) (simp add: quiet_def)
next
  case ExitGame
  have "quiet (stopAudioProcessing True s) (handleExitGame s)"
    by (simp add: handleExitGame_def quiet_def)
  with quiet_stop have "quiet s (handleExitGame s)" by (rule quiet_trans)
  then show ?thesis using ExitGame by simp
next
  case ToggleConversation
  then show ?thesis by (simp add: quiet_toggle)
next
  case (GreetingResponse a)
  have "quiet s (emit GreetingSourceStart s)" by (simp add: quiet_def emit_def)
  then show ?thesis using GreetingResponse
    by (simp add: greetingResponse_def quiet_toggle quiet_greetingCatch split: option.split)
next
  case GreetingFailed
  then show ?thesis by (simp add: quiet_greetingCatch)
next
  case GreetingEnded
  then show ?thesis by (simp add: quiet_toggle)
next
  case MediaGranted
  then show ?thesis by (simp add: mediaGranted_def quiet_def emit_def)
next
  case (MediaDenied err)
  then show ?thesis by (simp add: mediaDenied_def quiet_toggleCatch)
next
  case OnOpen
  then show ?thesis by (simp add: onopen_def quiet_def emit_def Let_def)
next
  case OnAudioProcess
  then show ?thesis by (simp add: onaudioprocess_def quiet_def emit_def)
next
  case (OnMessage m now)
  then show ?thesis using assms by simp
next
  case OnError
  have "quiet s ((emit ConsoleError s)\<lparr>error := Some ''An error occurred. Please try again.'', gameState := IDLE\<rparr>)"
    by (simp add: quiet_def emit_def)
  then have "quiet s (onerror s)" unfolding onerror_def using quiet_stop by (rule quiet_trans)
  then show ?thesis using OnError by simp
next
  case OnClose
  have "quiet s (s\<lparr>gameState := IDLE\<rparr>)" by (simp add: quiet_def)
  then have "quiet s (onclose s)" unfolding onclose_def using quiet_stop by (rule quiet_trans)
  then show ?thesis using OnClose by simp
next
  case (SourceEnded n)
  then show ?thesis by (simp add: onended_def quiet_def Let_def)
next
  case ReactionEffect
  then show ?thesis by (simp add: reactionEffect_def quiet_def emit_def Let_def)
qed

text \<open>What one event other than an interruption does to the schedule.\<close>

lemma step_schedule:
  assumes "\<not> isInterruption ev"
  shows "\<exists>es. effects (step e s ev) = effects s @ es \<and>
     ((starts es = [] \<and>
       (nextStartTimeRef (step e s ev) = nextStartTimeRef s \<or>
        (\<exists>m now. ev = OnMessage m now \<and>
           nextStartTimeRef (step e s ev) = max (nextStartTimeRef s) now))) \<or>
      (\<exists>m now b d. ev = OnMessage m now \<and> decodeAudioData e b = Some d
         \<and> starts es = [(max (nextStartTimeRef s) now, d)]
         \<and> nextStartTimeRef (step e s ev) = addDouble (max (nextStartTimeRef s) now) d))"
proof (cases "\<exists>m now. ev = OnMessage m now")
  case True
  then obtain m now where ev: "ev = OnMessage m now" by blast
  then have "\<not> interrupted m" using assms by simp
  from onmessage_schedule [OF this, of e now s] show ?thesis
    unfolding ev step.simps by blast
next
  case False
  then have "quiet s (step e s ev)" by (intro quiet_step) blast
  then show ?thesis unfolding quiet_def by blast
qed

lemma gapless_Cons:
  "gapless ((t, d) # xs) \<longleftrightarrow> (xs = [] \<or> addDouble t d \<le> fst (hd xs)) \<and> gapless xs"
  by (cases xs) auto

lemma run_schedule:
  assumes "\<forall>ev \<in> set evs. \<not> isInterruption ev"
  shows "\<exists>es. effects (run e evs s) = effects s @ es
         \<and> gapless (starts es)
         \<and> (starts es \<noteq> [] \<longrightarrow> nextStartTimeRef s \<le> fst (hd (starts es)))"
  using assms
proof (induction evs arbitrary: s)
  case Nil
  then show ?case by (simp add: run_def)
next
  case (Cons ev evs)
  let ?s1 = "step e s ev"
  have ni: "\<not> isInterruption ev" using Cons.prems by simp
  have rest: "\<forall>ev \<in> set evs. \<not> isInterruption ev" using Cons.prems by simp
  obtain es1 where es1: "effects ?s1 = effects s @ es1"
    and alt: "(starts es1 = [] \<and> nextStartTimeRef s \<le> nextStartTimeRef ?s1) \<or>
      (\<exists>now d. starts es1 = [(max (nextStartTimeRef s) now, d)]
         \<and> nextStartTimeRef ?s1 = addDouble (max (nextStartTimeRef s) now) d)"
    using step_schedule [OF ni, of e s] by fastforce
  obtain es2 where es2: "effects (run e evs ?s1) = effects ?s1 @ es2"
    and g2: "gapless (starts es2)"
    and h2: "starts es2 \<noteq> [] \<longrightarrow> nextStartTimeRef ?s1 \<le> fst (hd (starts es2))"
    using Cons.IH [OF rest, of ?s1] by blast
  have eff: "effects (run e (ev # evs) s) = effects s @ (es1 @ es2)"
    using es1 es2 by (simp add: run_Cons)
  from alt have "gapless (starts (es1 @ es2))
         \<and> (starts (es1 @ es2) \<noteq> [] \<longrightarrow> nextStartTimeRef s \<le> fst (hd (starts (es1 @ es2))))"
  proof
    assume "starts es1 = [] \<and> nextStartTimeRef s \<le> nextStartTimeRef ?s1"
    then show ?thesis using g2 h2 by (auto simp add: starts_append)
  next
    assume "\<exists>now d. starts es1 = [(max (nextStartTimeRef s) now, d)]
         \<and> nextStartTimeRef ?s1 = addDouble (max (nextStartTimeRef s) now) d"
    then obtain now d where s1: "starts es1 = [(max (nextStartTimeRef s) now, d)]"
      and n1: "nextStartTimeRef ?s1 = addDouble (max (nextStartTimeRef s) now) d" by blast
    have "gapless ((max (nextStartTimeRef s) now, d) # starts es2)"
      using g2 h2 n1 by (auto simp add: gapless_Cons)
    then show ?thesis using s1 by (simp add: starts_append)
  qed
  then show ?case using eff by blast
qed

text \<open>With clock readings that are times and durations that are not negative, so are all starts.\<close>

lemma run_times:
  assumes "\<forall>ev \<in> set evs. \<not> isInterruption ev" and "\<forall>ev \<in> set evs. readsTime ev"
    and "\<forall>b d. decodeAudioData e b = Some d \<longrightarrow> 0 \<le> d" and "isTime (nextStartTimeRef s)"
  shows "\<exists>es. effects (run e evs s) = effects s @ es
         \<and> (\<forall>(t, d) \<in> set (starts es). isTime t \<and> 0 \<le> d)"
  using assms(1,2,4)
proof (induction evs arbitrary: s)
  case Nil
  then show ?case by (simp add: run_def)
next
  case (Cons ev evs)
  let ?s1 = "step e s ev"
  let ?ns = "nextStartTimeRef s"
  have ni: "\<not> isInterruption ev" using Cons.prems by simp
  from step_schedule [OF ni, of e s]
  obtain es1 where es1: "effects ?s1 = effects s @ es1"
    and alt: "(starts es1 = [] \<and>
       (nextStartTimeRef ?s1 = ?ns \<or>
        (\<exists>m now. ev = OnMessage m now \<and> nextStartTimeRef ?s1 = max ?ns now))) \<or>
      (\<exists>m now b d. ev = OnMessage m now \<and> decodeAudioData e b = Some d
         \<and> starts es1 = [(max ?ns now, d)]
         \<and> nextStartTimeRef ?s1 = addDouble (max ?ns now) d)"
    by blast
  have now: "isTime now" if "ev = OnMessage m now" for m now
    using Cons.prems(2) that by simp
  have both: "isTime (nextStartTimeRef ?s1) \<and> (\<forall>(t, d) \<in> set (starts es1). isTime t \<and> 0 \<le> d)"
    using alt
  proof (elim disjE conjE exE)
    assume "starts es1 = []" "nextStartTimeRef ?s1 = ?ns"
    then show ?thesis using Cons.prems(3) by simp
  next
    fix m now
    assume "starts es1 = []" "ev = OnMessage m now" "nextStartTimeRef ?s1 = max ?ns now"
    then show ?thesis using Cons.prems(3) now by (simp add: isTime_max)
  next
    fix m now b d
    assume a: "ev = OnMessage m now" "decodeAudioData e b = Some d"
      "starts es1 = [(max ?ns now, d)]" "nextStartTimeRef ?s1 = addDouble (max ?ns now) d"
    have t: "isTime (max ?ns now)" using Cons.prems(3) now [OF a(1)] by (rule isTime_max)
    have d: "0 \<le> d" using assms(3) a(2) by blast
    show ?thesis using a(3,4) t d by (simp add: isTime_addDouble)
  qed
  obtain es2 where es2: "effects (run e evs ?s1) = effects ?s1 @ es2"
    and t2: "\<forall>(t, d) \<in> set (starts es2). isTime t \<and> 0 \<le> d"
    using Cons.IH [of ?s1] Cons.prems(1,2) both by auto
  have "effects (run e (ev # evs) s) = effects s @ (es1 @ es2)"
    using es1 es2 by (simp add: run_Cons)
  moreover have "\<forall>(t, d) \<in> set (starts (es1 @ es2)). isTime t \<and> 0 \<le> d"
    using both t2 by (auto simp add: starts_append)
  ultimately show ?case by blast
qed

lemma gapless_sorted:
  assumes "gapless xs" and "\<forall>(t, d) \<in> set xs. isTime t \<and> 0 \<le> d"
  shows "sorted (map fst xs)"
proof -
  have "successively (\<lambda>x y. fst x \<le> fst y) xs"
    using assms
  proof (induction xs)
    case Nil
    then show ?case by simp
  next
    case (Cons x xs)
    obtain t d where x: "x = (t, d)" by (cases x)
    have "gapless xs" using Cons.prems(1) x by (simp add: gapless_Cons)
    then have ih: "successively (\<lambda>x y. fst x \<le> fst y) xs" using Cons by simp
    have "t \<le> addDouble t d" using Cons.prems(2) x by (simp add: addDouble_ge)
    then have "xs = [] \<or> t \<le> fst (hd xs)" using Cons.prems(1) x by (auto simp add: gapless_Cons)
    then show ?case using ih x by (simp add: successively_Cons)
  qed
  then have "successively (\<le>) (map fst xs)" by (simp add: successively_map)
  then show ?thesis
    by (simp add: successively_conv_sorted_wrt)
qed

lemma openSession_nextStart: "nextStartTimeRef (run demoEnv openSession initApp) = 0"
  by (simp add: example_defs handler_defs)

lemma twoUnits_starts:
  "starts (newEffects (run demoEnv openSession initApp)
       (run demoEnv twoUnits (run demoEnv openSession initApp))) = [(1, 4), (5, 2)]"
  by (simp add: twoUnits_def example_defs handler_defs)

text \<open>
  The claim C1 says that each unit starts no earlier than the previous unit's start plus
  its duration. The code keeps the rounded sum: with the clock at five render quanta
  (the double next to 640 / 24000) and two buffers of half a second arriving at once, the
  second unit starts at the double that the sum rounds to, which lies below the sum.
\<close>

theorem exact_sum_counterexample:
  "starts (newEffects (run halfSecondEnv openSession initApp)
      (run halfSecondEnv [OnMessage (audioMessage ''AAAA'') fiveQuanta,
                          OnMessage (audioMessage ''AAAA'') fiveQuanta]
         (run halfSecondEnv openSession initApp)))
     = [(fiveQuanta, 1 / 2), (fiveQuantaAndHalf, 1 / 2)]
   \<and> fiveQuantaAndHalf < fiveQuanta + 1 / 2"
  using fiveQuanta_order
  by (simp add: example_defs handler_defs fiveQuanta_sum [unfolded addDouble_def] max_def)

text \<open>
  C1, amended. (a) A message whose audio payload \<open>b\<close> is scheduled (there is an output
  context and \<open>b\<close> decodes to a buffer of duration \<open>d\<close>) starts exactly one source, at
  \<open>max nextStart now\<close>, where \<open>now\<close> is the clock of the output device; unless the same
  message is an interruption, \<open>nextStart\<close> is then the sum of that start time and \<open>d\<close>
  as doubles add, the exact sum rounded.
  (b) Over any events handled one after the other from any state, none of them an
  interruption (messages, capture frames, ends of playback, the user's intents, the session
  callbacks), the units started form a chain in which each one starts no earlier than that
  rounded sum of its predecessor's start and duration. When the clock readings and the
  first \<open>nextStart\<close> are non-negative doubles and durations are not negative, the start
  times are non-decreasing.
\<close>

theorem playback_schedule:
  "(\<forall>b d. modelTurnAudio m = Some b \<and> b \<noteq> [] \<and> outputAudioContextRef s \<noteq> None
          \<and> decodeAudioData e b = Some d \<longrightarrow>
       starts (newEffects s (onmessage e now m s)) = [(max (nextStartTimeRef s) now, d)]
     \<and> (\<not> interrupted m \<longrightarrow>
          nextStartTimeRef (onmessage e now m s) = addDouble (max (nextStartTimeRef s) now) d))
 \<and> ((\<forall>ev \<in> set evs. \<not> isInterruption ev) \<longrightarrow>
       gapless (starts (newEffects s (run e evs s)))
     \<and> ((\<forall>ev \<in> set evs. readsTime ev) \<and> isTime (nextStartTimeRef s)
        \<and> (\<forall>b d. decodeAudioData e b = Some d \<longrightarrow> 0 \<le> d) \<longrightarrow>
          sorted (map fst (starts (newEffects s (run e evs s))))))"
proof (intro conjI allI impI)
  fix b d
  assume a: "modelTurnAudio m = Some b \<and> b \<noteq> [] \<and> outputAudioContextRef s \<noteq> None
          \<and> decodeAudioData e b = Some d"
  obtain es0 where es0: "effects (beforeAudio m s) = effects s @ es0"
    using beforeAudio_frame(5) by blast
  have st0: "starts es0 = []"
    using beforeAudio_frame(4) [of m s] es0 by (simp add: starts_append)
  have ha: "handleAudio e now m (beforeAudio m s) =
    (Normal, (beforeAudio m s)\<lparr>gameState := TALKING,
               nextStartTimeRef := addDouble (max (nextStartTimeRef s) now) d,
               audioSourcesRef := audioSourcesRef s @ [nextSourceId (beforeAudio m s)],
               nextSourceId := Suc (nextSourceId (beforeAudio m s)),
               effects := effects s @ es0 @ [SourceStart (nextSourceId (beforeAudio m s)) (max (nextStartTimeRef s) now) d]\<rparr>)"
    using a handleAudio_scheduled [of m b "beforeAudio m s" e d now]
    by (simp add: beforeAudio_frame es0)
  have "\<exists>es1. effects (onmessage e now m s) = effects s @ es0 @ [SourceStart (nextSourceId (beforeAudio m s)) (max (nextStartTimeRef s) now) d] @ es1 \<and> starts es1 = []"
    by (simp add: onmessage_alt beforeAudio_def[symmetric] ha handleInterrupted_def stopSources_eq starts_stops starts_append)
  then obtain es1 where "effects (onmessage e now m s) = effects s @ (es0 @ [SourceStart (nextSourceId (beforeAudio m s)) (max (nextStartTimeRef s) now) d] @ es1)" and "starts es1 = []"
    by auto
  then show "starts (newEffects s (onmessage e now m s)) = [(max (nextStartTimeRef s) now, d)]"
    using st0 by (simp add: newEffects_append starts_append)
  assume "\<not> interrupted m"
  then show "nextStartTimeRef (onmessage e now m s) = addDouble (max (nextStartTimeRef s) now) d"
    by (simp add: onmessage_not_interrupted ha)
next
  assume ni: "\<forall>ev \<in> set evs. \<not> isInterruption ev"
  obtain es where es: "effects (run e evs s) = effects s @ es" and g: "gapless (starts es)"
    using run_schedule [OF ni, of e s] by blast
  show "gapless (starts (newEffects s (run e evs s)))"
    using g by (simp add: newEffects_append [OF es])
  assume h: "(\<forall>ev \<in> set evs. readsTime ev) \<and> isTime (nextStartTimeRef s)
        \<and> (\<forall>b d. decodeAudioData e b = Some d \<longrightarrow> 0 \<le> d)"
  obtain es' where es': "effects (run e evs s) = effects s @ es'"
    and t: "\<forall>(t, d) \<in> set (starts es'). isTime t \<and> 0 \<le> d"
    using run_times [OF ni, of e s] h by blast
  have "es' = es" using es es' by simp
  then show "sorted (map fst (starts (newEffects s (run e evs s))))"
    using g t by (simp add: newEffects_append [OF es] gapless_sorted)
qed

theorem playback_schedule_witness:
  "starts (newEffects (run demoEnv openSession initApp)
       (onmessage demoEnv 1 (audioMessage ''AAAA'') (run demoEnv openSession initApp))) = [(1, 4)]
   \<and> nextStartTimeRef (onmessage demoEnv 1 (audioMessage ''AAAA'') (run demoEnv openSession initApp))
       = addDouble 1 4
   \<and> addDouble 1 4 = 5
   \<and> starts (newEffects (run demoEnv openSession initApp)
       (run demoEnv twoUnits (run demoEnv openSession initApp))) = [(1, 4), (5, 2)]
   \<and> gapless [(1, 4), (5, 2)] \<and> sorted (map fst [(1 :: real, 4 :: real), (5, 2)])"
proof -
  let ?s = "run demoEnv openSession initApp"
  have m: "modelTurnAudio (audioMessage ''AAAA'') = Some ''AAAA'' \<and> ''AAAA'' \<noteq> []
      \<and> outputAudioContextRef ?s \<noteq> None \<and> decodeAudioData demoEnv ''AAAA'' = Some 4"
    "\<not> interrupted (audioMessage ''AAAA'')"
    by (simp_all add: example_defs handler_defs)
  have ev: "\<forall>ev \<in> set twoUnits. \<not> isInterruption ev" "\<forall>ev \<in> set twoUnits. readsTime ev"
    by (simp_all add: twoUnits_def audioMessage_def emptyMessage_def isTime_def)
  have t: "isTime (nextStartTimeRef ?s)"
    by (simp add: openSession_nextStart isTime_def)
  have d: "\<forall>b d. decodeAudioData demoEnv b = Some d \<longrightarrow> 0 \<le> d"
    by (auto simp add: demoEnv_def)
  show ?thesis
    using playback_schedule [of "audioMessage ''AAAA''" ?s demoEnv 1 twoUnits] m ev t d
    by (simp add: twoUnits_starts openSession_nextStart addDouble_def)
qed

end
